theory Spec2Isabelle
  imports Complex_Main "HOL-Library.Sublist"
begin

section \<open>The test command of workspace-tools: data model\<close>

text \<open>
  The development embeds \<^verbatim>\<open>src/workspace/commands/test.py\<close>: the command \<^verbatim>\<open>test\<close> with its
  three branches, \<^verbatim>\<open>strip_version_from_entry_scripts\<close>, \<^verbatim>\<open>show_installed_dependencies\<close>
  and \<^verbatim>\<open>install_editable_dependencies\<close>.

  Python 2 byte strings are HOL strings. The file system is read through three partial
  functions, one per system call the code makes: \<^verbatim>\<open>os.stat(p).st_mtime\<close> (it also decides
  \<^verbatim>\<open>os.path.exists(p)\<close>, which is a successful \<^verbatim>\<open>os.stat\<close>), \<^verbatim>\<open>os.listdir(p)\<close> and
  \<^verbatim>\<open>open(p).read()\<close>. A modification time is a finite float; the code only compares two of
  them and takes their maximum, so the order of the reals stands for the order of the floats.
\<close>

type_synonym path = string

record world =
  stat_mtime :: "path \<Rightarrow> real option"
  listdir :: "path \<Rightarrow> string list option"
  file_content :: "path \<Rightarrow> string option"
  environ :: "string \<Rightarrow> string option"
  clock :: real

datatype cmd = Argv "string list" | Shell string

datatype error =
    OSError path
  | IOError path
  | KeyError string
  | IndexError
  | RunError cmd nat
  | SystemExit nat
  | ReError string

text \<open>
  What a call leaves behind for an observer: the subprocesses started (with their working
  directory), the files written, the log records and the printed lines. \<open>Call_strip\<close> and
  \<open>Call_install\<close> mark the entry of the two post-steps of a synchronization for an environment.
\<close>

datatype event =
    Run cmd "path option"
  | Write path string
  | Log_debug string
  | Log_info string
  | Log_error string
  | Log_exception string error
  | Print string
  | Call_strip string
  | Call_install string

record state =
  fs :: world
  trace :: "event list"

text \<open>
  A compiled regular expression, as far as line 148 and line 149 use one: its \<^verbatim>\<open>search\<close>
  (is there a match in the string) and its \<^verbatim>\<open>sub\<close> (the string with every match replaced).
\<close>

record pattern =
  pattern_search :: "string \<Rightarrow> bool"
  pattern_sub :: "string \<Rightarrow> string \<Rightarrow> string"

text \<open>
  The collaborators that \<^verbatim>\<open>test.py\<close> imports and the repository does not hold here
  (\<^verbatim>\<open>workspace.commands.helpers\<close>, \<^verbatim>\<open>workspace.config\<close>, \<^verbatim>\<open>workspace.scm\<close>), and the operating
  system's answer to a subprocess, are parameters: \<open>exec\<close> gives the exit code, the captured
  output and the world a command leaves; \<open>tox_bindir env None\<close> is \<^verbatim>\<open>tox.bindir(env)\<close> and
  \<open>tox_bindir env (Some x)\<close> is \<^verbatim>\<open>tox.bindir(env, x)\<close>; \<open>product_name\<close> is
  \<^verbatim>\<open>product_name(tox.repo)\<close>; \<open>editable_product_dependencies\<close> is the configured value
  \<^verbatim>\<open>config.test.editable_product_dependencies\<close>, \<open>None\<close> when it is unset; \<open>re_library\<close>
  is \<^verbatim>\<open>re.compile\<close> of Python's library for the patterns the model does not interpret
  itself: the error \<^verbatim>\<open>re.error\<close> or the compiled pattern.
\<close>

record tools =
  exec :: "world \<Rightarrow> cmd \<Rightarrow> path option \<Rightarrow> nat \<times> string \<times> world"
  repo_check :: "world \<Rightarrow> error option"
  repo_path :: path
  abspath :: "path \<Rightarrow> path"
  tox_path :: path
  tox_envlist :: "string list"
  tox_envdir :: "string \<Rightarrow> path"
  tox_bindir :: "string \<Rightarrow> string option \<Rightarrow> path"
  tox_commands :: "string \<Rightarrow> string list"
  product_name :: string
  product_repos :: "world \<Rightarrow> path list"
  product_path :: "string \<Rightarrow> path"
  expand_product_groups :: "string list \<Rightarrow> string list"
  editable_product_dependencies :: "string option"
  re_library :: "string \<Rightarrow> error + pattern"

section \<open>Python's string and path functions\<close>

definition is_space :: "char \<Rightarrow> bool" where
  "is_space c = (c \<in> set [CHR '' '', CHR 0x09, CHR 0x0A, CHR 0x0B, CHR 0x0C, CHR 0x0D])"

text \<open>\<^verbatim>\<open>s.split()\<close>: the maximal runs of characters that are not whitespace.\<close>

fun split_acc :: "string \<Rightarrow> string \<Rightarrow> string list" where
  "split_acc w [] = (if w = [] then [] else [w])"
| "split_acc w (c # cs) =
     (if is_space c then (if w = [] then split_acc [] cs else w # split_acc [] cs)
      else split_acc (w @ [c]) cs)"

definition py_split :: "string \<Rightarrow> string list" where
  "py_split s = split_acc [] s"

text \<open>\<^verbatim>\<open>s.split(sep)\<close> for a separator of one character: empty fields are kept.\<close>

fun split_on :: "char \<Rightarrow> string \<Rightarrow> string \<Rightarrow> string list" where
  "split_on sep w [] = [w]"
| "split_on sep w (c # cs) =
     (if c = sep then w # split_on sep [] cs else split_on sep (w @ [c]) cs)"

fun py_join :: "string \<Rightarrow> string list \<Rightarrow> string" where
  "py_join sep [] = []"
| "py_join sep [x] = x"
| "py_join sep (x # y # ys) = x @ sep @ py_join sep (y # ys)"

text \<open>\<^verbatim>\<open>posixpath.join(a, b)\<close> and \<^verbatim>\<open>posixpath.basename(p)\<close>.\<close>

definition path_join :: "path \<Rightarrow> path \<Rightarrow> path" where
  "path_join a b =
     (if b \<noteq> [] \<and> hd b = CHR ''/'' then b
      else if a = [] \<or> last a = CHR ''/'' then a @ b
      else a @ ''/'' @ b)"

definition basename :: "path \<Rightarrow> string" where
  "basename p = rev (takeWhile (\<lambda>c. c \<noteq> CHR ''/'') (rev p))"

text \<open>\<^verbatim>\<open>old in s\<close> and \<^verbatim>\<open>s.replace(old, new)\<close> for a non-empty \<open>old\<close>.\<close>

fun contains :: "string \<Rightarrow> string \<Rightarrow> bool" where
  "contains old [] = (old = [])"
| "contains old (c # cs) = (prefix old (c # cs) \<or> contains old cs)"

fun replace_skip :: "string \<Rightarrow> string \<Rightarrow> nat \<Rightarrow> string \<Rightarrow> string" where
  "replace_skip old new k [] = []"
| "replace_skip old new (Suc k) (c # cs) = replace_skip old new k cs"
| "replace_skip old new 0 (c # cs) =
     (if prefix old (c # cs) then new @ replace_skip old new (length old - 1) cs
      else c # replace_skip old new 0 cs)"

definition py_replace :: "string \<Rightarrow> string \<Rightarrow> string \<Rightarrow> string" where
  "py_replace old new s = replace_skip old new 0 s"

definition path_exists :: "world \<Rightarrow> path \<Rightarrow> bool" where
  "path_exists w p = (stat_mtime w p \<noteq> None)"

section \<open>Running a subprocess\<close>

text \<open>
  Modelled from the spec: \<^verbatim>\<open>workspace.utils.run\<close> is not among the source files. The spec's
  interface is \<^verbatim>\<open>run(command, cwd=None, shell=False, silent=False, raises=True,
  return_output=False) -> captured output or raises on nonzero exit\<close>, with the documented
  behaviour of raising on nonzero exit unless the caller explicitly opts out. \<open>silent\<close> only
  chooses whether the output is shown and is left out.
\<close>

definition run :: "tools \<Rightarrow> cmd \<Rightarrow> path option \<Rightarrow> bool \<Rightarrow> state \<Rightarrow> (error + string) \<times> state" where
  "run t c cwd raises s =
     (case exec t (fs s) c cwd of
        (code, out, w') \<Rightarrow>
          (if code \<noteq> 0 \<and> raises then Inl (RunError c code) else Inr out,
           s\<lparr>fs := w', trace := trace s @ [Run c cwd]\<rparr>))"

definition emit :: "event \<Rightarrow> state \<Rightarrow> state" where
  "emit e s = s\<lparr>trace := trace s @ [e]\<rparr>"

section \<open>The staleness check\<close>

text \<open>
  The closure \<^verbatim>\<open>requirements_updated\<close> of \<^verbatim>\<open>test\<close> (lines 107 to 111). \<^verbatim>\<open>os.stat\<close> raises
  \<^verbatim>\<open>OSError\<close> on a path that does not exist.
\<close>

definition requirements_updated :: "tools \<Rightarrow> world \<Rightarrow> path \<Rightarrow> error + bool" where
  "requirements_updated t w envdir =
     (case stat_mtime w (path_join (repo_path t) ''setup.py'') of
        None \<Rightarrow> Inl (OSError (path_join (repo_path t) ''setup.py''))
      | Some setup_mtime \<Rightarrow>
          (let req_mtime =
                 (case stat_mtime w (path_join (repo_path t) ''requirements.txt'') of
                    None \<Rightarrow> setup_mtime
                  | Some r \<Rightarrow> max setup_mtime r)
           in case stat_mtime w envdir of
                None \<Rightarrow> Inl (OSError envdir)
              | Some env_mtime \<Rightarrow> Inr (req_mtime > env_mtime)))"

text \<open>The test of line 113: \<^verbatim>\<open>not os.path.exists(envdir) or requirements_updated()\<close>.\<close>

definition needs_redevelop :: "tools \<Rightarrow> world \<Rightarrow> string \<Rightarrow> error + bool" where
  "needs_redevelop t w env =
     (if \<not> path_exists w (tox_envdir t env) then Inr True
      else requirements_updated t w (tox_envdir t env))"

section \<open>The version pattern of the entry-script normalizer\<close>

text \<open>
  Line 140 compiles \<^verbatim>\<open>'%s==[0-9\.]+' % name\<close>: the product name is put into the pattern as it
  is, so a character of the name that is special in a regular expression keeps its special
  meaning. The model covers the names whose special characters are dots: a dot stands for
  any character but a newline, every other character of the name for itself. For a name with
  another special character (one of \<^verbatim>\<open>\ ^ $ * + ? { } [ ] | ( )\<close>) \<open>compile_name\<close> gives
  \<open>None\<close>, and the pattern is what the parameter \<open>re_library\<close> makes of its text.
\<close>

datatype atom = Lit char | Any_char

definition regex_special :: "char \<Rightarrow> bool" where
  "regex_special c = (c \<in> set (CHR 0x5C # ''^$*+?{}[]|()''))"

fun compile_name :: "string \<Rightarrow> atom list option" where
  "compile_name [] = Some []"
| "compile_name (c # cs) =
     (if regex_special c then None
      else map_option ((#) (if c = CHR ''.'' then Any_char else Lit c)) (compile_name cs))"

fun atom_ok :: "atom \<Rightarrow> char \<Rightarrow> bool" where
  "atom_ok (Lit a) c = (a = c)"
| "atom_ok Any_char c = (c \<noteq> CHR 0x0A)"

text \<open>Matching a sequence of atoms at the start of a string gives the rest of the string.\<close>

fun match_atoms :: "atom list \<Rightarrow> string \<Rightarrow> string option" where
  "match_atoms [] s = Some s"
| "match_atoms (a # ats) [] = None"
| "match_atoms (a # ats) (c # cs) = (if atom_ok a c then match_atoms ats cs else None)"

definition version_char :: "char \<Rightarrow> bool" where
  "version_char c = (c \<in> set ''0123456789.'')"

text \<open>
  A match of the whole pattern at the start of \<open>s\<close>: the name, \<^verbatim>\<open>==\<close>, then \<^verbatim>\<open>[0-9\.]+\<close>, which
  is greedy and last in the pattern, so it takes the longest run. The result is what follows
  the match.
\<close>

definition match_here :: "atom list \<Rightarrow> string \<Rightarrow> string option" where
  "match_here ats s =
     (case match_atoms (ats @ [Lit CHR ''='', Lit CHR ''='']) s of
        None \<Rightarrow> None
      | Some r \<Rightarrow> if takeWhile version_char r = [] then None else Some (dropWhile version_char r))"

fun re_search :: "atom list \<Rightarrow> string \<Rightarrow> bool" where
  "re_search ats [] = False"
| "re_search ats (c # cs) = (match_here ats (c # cs) \<noteq> None \<or> re_search ats cs)"

lemma match_atoms_length:
  "match_atoms ats s = Some r \<Longrightarrow> length s = length ats + length r"
  by (induction ats s rule: match_atoms.induct) (auto split: if_splits)

lemma match_here_shorter:
  assumes "match_here ats s = Some r"
  shows "length r < length s"
proof -
  from assms obtain r0 where m: "match_atoms (ats @ [Lit CHR ''='', Lit CHR ''='']) s = Some r0"
    and r: "r = dropWhile version_char r0"
    by (auto simp: match_here_def split: option.splits if_splits)
  have "length r \<le> length r0"
    unfolding r by (rule length_dropWhile_le)
  moreover have "length s = length ats + 2 + length r0"
    using match_atoms_length [OF m] by simp
  ultimately show ?thesis by simp
qed

text \<open>
  \<^verbatim>\<open>pattern.sub(repl, s)\<close>: the matches are found from left to right, each search starting
  where the match before it ended.
\<close>

function re_sub :: "atom list \<Rightarrow> string \<Rightarrow> string \<Rightarrow> string" where
  "re_sub ats repl [] = []"
| "re_sub ats repl (c # cs) =
     (case match_here ats (c # cs) of
        Some r \<Rightarrow> repl @ re_sub ats repl r
      | None \<Rightarrow> c # re_sub ats repl cs)"
  by pat_completeness auto
termination
  by (relation "measure (\<lambda>(ats, repl, s). length s)") (auto dest: match_here_shorter)

text \<open>\<^verbatim>\<open>re.compile('%s==[0-9\.]+' % name)\<close>, line 140.\<close>

definition re_compile :: "tools \<Rightarrow> string \<Rightarrow> error + pattern" where
  "re_compile t name =
     (case compile_name name of
        Some ats \<Rightarrow> Inr \<lparr>pattern_search = re_search ats, pattern_sub = re_sub ats\<rparr>
      | None \<Rightarrow> re_library t (name @ ''==[0-9'' @ [CHR 0x5C] @ ''.]+''))"

section \<open>The entry-script normalizer\<close>

definition write_file :: "path \<Rightarrow> string \<Rightarrow> state \<Rightarrow> state" where
  "write_file p c s =
     s\<lparr>fs := (fs s)\<lparr>stat_mtime := (stat_mtime (fs s))(p \<mapsto> clock (fs s)),
                     file_content := (file_content (fs s))(p \<mapsto> c)\<rparr>,
       trace := trace s @ [Write p c]\<rparr>"

text \<open>The loop of lines 142 to 152; the accumulator is \<^verbatim>\<open>removed_from\<close>.\<close>

fun strip_loop ::
  "pattern \<Rightarrow> string \<Rightarrow> path \<Rightarrow> string list \<Rightarrow> string list \<Rightarrow> state \<Rightarrow> (error + string list) \<times> state"
where
  "strip_loop re name script_bin [] removed_from s = (Inr removed_from, s)"
| "strip_loop re name script_bin (script # rest) removed_from s =
     (case file_content (fs s) (path_join script_bin script) of
        None \<Rightarrow> (Inl (IOError (path_join script_bin script)), s)
      | Some content \<Rightarrow>
          if pattern_search re content
          then strip_loop re name script_bin rest
                 (removed_from @ [basename (path_join script_bin script)])
                 (write_file (path_join script_bin script) (pattern_sub re name content) s)
          else strip_loop re name script_bin rest removed_from s)"

text \<open>
  \<^verbatim>\<open>strip_version_from_entry_scripts(tox, env)\<close>, lines 134 to 155. The function has no
  \<^verbatim>\<open>return\<close> statement: its value is Python's \<^verbatim>\<open>None\<close>, here \<open>None\<close> of
  \<open>string list option\<close>, the type of a value that is \<^verbatim>\<open>None\<close> or a list of strings.
\<close>

definition strip_version_from_entry_scripts ::
  "tools \<Rightarrow> string \<Rightarrow> state \<Rightarrow> (error + string list option) \<times> state"
where
  "strip_version_from_entry_scripts t env s =
     (let name = product_name t; script_bin = tox_bindir t env None in
      if path_exists (fs s) script_bin then
        (case re_compile t name of
           Inl e \<Rightarrow> (Inl e, s)
         | Inr re \<Rightarrow>
             (case listdir (fs s) script_bin of
                None \<Rightarrow> (Inl (OSError script_bin), s)
              | Some scripts \<Rightarrow>
                  (case strip_loop re name script_bin scripts [] s of
                     (Inl e, s') \<Rightarrow> (Inl e, s')
                   | (Inr removed_from, s') \<Rightarrow>
                       (Inr None,
                        if removed_from \<noteq> []
                        then emit (Log_debug (''Removed version spec from entry script(s): ''
                                     @ py_join '', '' removed_from)) s'
                        else s'))))
      else (Inr None, s))"

section \<open>The editable-dependency linker\<close>

definition sq :: string where
  "sq = [CHR 0x27]"

definition introspection_script :: "string \<Rightarrow> string" where
  "introspection_script name =
     ''import pkg_resources; print '' @ sq @ '' '' @ sq
     @ ''.join([r.key for r in pkg_resources.get_distribution('' @ sq @ name @ sq
     @ '').requires()])''"

text \<open>
  Modelled from the spec: \<^verbatim>\<open>workspace.utils.log_exception\<close> is not among the source files. The
  spec says of the block it guards that a failure during uninstall or install for one product
  is caught, logged, and does not abort processing of the remaining products.
\<close>

definition log_exception ::
  "string \<Rightarrow> (state \<Rightarrow> (error + unit) \<times> state) \<Rightarrow> state \<Rightarrow> state"
where
  "log_exception title body s =
     (case body s of
        (Inl e, s') \<Rightarrow> emit (Log_exception title e) s'
      | (Inr _, s') \<Rightarrow> s')"

text \<open>The block of lines 224 to 227, and the loop of lines 220 to 227 around it.\<close>

definition reinstall_editable :: "tools \<Rightarrow> path \<Rightarrow> string \<Rightarrow> state \<Rightarrow> (error + unit) \<times> state" where
  "reinstall_editable t pip lib s =
     (case run t (Argv [pip, ''uninstall'', lib, ''-y'']) None False s of
        (Inl e, s1) \<Rightarrow> (Inl e, s1)
      | (Inr _, s1) \<Rightarrow>
          (case run t (Argv [pip, ''install'', ''--editable'', product_path t lib]) None True s1 of
             (Inl e, s2) \<Rightarrow> (Inl e, s2)
           | (Inr _, s2) \<Rightarrow> (Inr (), s2)))"

fun link_loop :: "tools \<Rightarrow> path \<Rightarrow> string list \<Rightarrow> state \<Rightarrow> state" where
  "link_loop t pip [] s = s"
| "link_loop t pip (lib # libs) s =
     link_loop t pip libs
       (log_exception (''An error occurred when installing '' @ lib @ '' in editable mode'')
          (reinstall_editable t pip lib)
          (emit (Log_info (''Installing '' @ lib @ '' in editable mode'')) s))"

text \<open>The list comprehension of line 216.\<close>

definition select_libs :: "string list \<Rightarrow> string list \<Rightarrow> string list \<Rightarrow> string list" where
  "select_libs editable_dependencies available_products product_dependencies =
     [d \<leftarrow> editable_dependencies. d \<in> set available_products \<and> d \<in> set product_dependencies]"

text \<open>
  \<^verbatim>\<open>install_editable_dependencies(tox, env, debug)\<close>, lines 204 to 227. The guard of line
  205 is Python's truth of the configured value: unset and the empty string are false.
  \<open>debug\<close> only sets \<^verbatim>\<open>silent\<close> of the pip runs.
\<close>

definition install_editable_dependencies ::
  "tools \<Rightarrow> string \<Rightarrow> bool \<Rightarrow> state \<Rightarrow> (error + unit) \<times> state"
where
  "install_editable_dependencies t env dbg s =
     (case editable_product_dependencies t of
        None \<Rightarrow> (Inr (), s)
      | Some configured \<Rightarrow>
          if configured = [] then (Inr (), s)
          else
            (let editable_dependencies = expand_product_groups t (py_split configured) in
             case run t (Argv [tox_bindir t env (Some ''python''), ''-c'',
                               introspection_script (product_name t)]) None True s of
               (Inl e, s1) \<Rightarrow> (Inl e, s1)
             | (Inr out, s1) \<Rightarrow>
                 (Inr (),
                  link_loop t (tox_bindir t env (Some ''pip''))
                    (select_libs editable_dependencies
                       (map basename (product_repos t (fs s1))) (py_split out))
                    s1)))"

section \<open>The dependency reporter\<close>

definition nl :: string where
  "nl = [CHR 0x0A]"

text \<open>The script of lines 161 to 190 after \<^verbatim>\<open>script_template % (name, env)\<close>.\<close>

definition dependency_script :: "string \<Rightarrow> string \<Rightarrow> string" where
  "dependency_script name env = concat (map (\<lambda>l. l @ nl)
     ['''',
      ''import os'',
      ''import pkg_resources'',
      '''',
      ''cwd = os.getcwd()'',
      ''workspace_dir = os.path.dirname(cwd)'',
      '''',
      ''libs = [r.key for r in pkg_resources.get_distribution('' @ sq @ name @ sq @ '').requires()]'',
      ''output = []'',
      '''',
      ''print '' @ sq @ ''Product dependencies in '' @ env @ '':'' @ sq,
      '''',
      ''def strip_cwd(dir):'',
      ''  if dir.startswith(cwd + '' @ sq @ ''/'' @ sq @ ''):'',
      ''    dir = dir[len(cwd):].lstrip('' @ sq @ ''/'' @ sq @ '')'',
      ''  elif dir.startswith(workspace_dir):'',
      ''    dir = os.path.join('' @ sq @ ''..'' @ sq @ '', dir[len(workspace_dir):].lstrip(''
         @ sq @ ''/'' @ sq @ ''))'',
      ''  return dir'',
      '''',
      ''for lib in sorted(libs):'',
      ''  try:'',
      ''    dist = pkg_resources.get_distribution(lib)'',
      ''    output.append('' @ sq @ ''  %-25s %-10s  %s'' @ sq
         @ '' % (lib, dist.version, strip_cwd(dist.location)))'',
      ''  except pkg_resources.DistributionNotFound:'',
      ''    print '' @ sq @ ''  %s is not installed'' @ sq @ '' % lib'',
      ''  except Exception as e:'',
      ''    print '' @ sq @ ''  %s'' @ sq @ '' % e'',
      '''',
      ''print '' @ sq @ [CHR 0x5C] @ ''n'' @ sq @ ''.join(output)''])"

text \<open>\<^verbatim>\<open>show_installed_dependencies(tox, env)\<close>, lines 160 to 201.\<close>

definition show_installed_dependencies :: "tools \<Rightarrow> string \<Rightarrow> state \<Rightarrow> (error + unit) \<times> state" where
  "show_installed_dependencies t env s =
     (if \<not> path_exists (fs s) (tox_bindir t env (Some ''python''))
      then (Inl (SystemExit 1),
            emit (Log_error (''Test environment '' @ env
              @ '' is not installed. Please run without --dependencies to install it first.'')) s)
      else (case run t (Argv [tox_bindir t env (Some ''python''), ''-c'',
                              dependency_script (product_name t) env]) None True s of
              (Inl e, s1) \<Rightarrow> (Inl e, s1)
            | (Inr _, s1) \<Rightarrow> (Inr (), s1)))"

fun show_loop :: "tools \<Rightarrow> string list \<Rightarrow> state \<Rightarrow> (error + unit) \<times> state" where
  "show_loop t [] s = (Inr (), s)"
| "show_loop t (env # envs) s =
     (case show_installed_dependencies t env s of
        (Inl e, s1) \<Rightarrow> (Inl e, s1)
      | (Inr _, s1) \<Rightarrow> show_loop t envs s1)"

section \<open>The test command\<close>

record test_args =
  env_or_file :: "string list"
  dependencies :: bool
  redevelop :: bool
  recreate :: bool
  show_output :: bool
  match_test :: "string option"
  debug :: bool

text \<open>Lines 52 to 55: the directories of the active virtualenv leave \<^verbatim>\<open>PATH\<close>.\<close>

definition strip_venv_path :: "world \<Rightarrow> error + world" where
  "strip_venv_path w =
     (case environ w ''VIRTUAL_ENV'' of
        None \<Rightarrow> Inr w
      | Some venv_bin \<Rightarrow>
          (case environ w ''PATH'' of
             None \<Rightarrow> Inl (KeyError ''PATH'')
           | Some p \<Rightarrow>
               Inr (w\<lparr>environ := (environ w)(''PATH'' \<mapsto>
                      py_join '':'' [q \<leftarrow> split_on CHR '':'' [] p.
                                      path_exists w q \<and> \<not> prefix venv_bin q])\<rparr>)))"

text \<open>
  Lines 48 to 82: the environments to act on and the arguments for py.test.
  \<^verbatim>\<open>ToxIni(repo)\<close> is the manifest view the parameters give.
\<close>

definition truthy :: "string option \<Rightarrow> bool" where
  "truthy v = (case v of None \<Rightarrow> False | Some x \<Rightarrow> x \<noteq> [])"

definition test_setup :: "tools \<Rightarrow> test_args \<Rightarrow> state \<Rightarrow> (error + string list \<times> string) \<times> state" where
  "test_setup t a s =
     (case repo_check t (fs s) of
        Some e \<Rightarrow> (Inl e, s)
      | None \<Rightarrow>
          (case strip_venv_path (fs s) of
             Inl e \<Rightarrow> (Inl e, s)
           | Inr w1 \<Rightarrow>
               (let envs = [ef \<leftarrow> env_or_file a. \<not> path_exists w1 ef];
                    files = map (abspath t) [ef \<leftarrow> env_or_file a. path_exists w1 ef];
                    given = (show_output a \<or> truthy (match_test a) \<or> files \<noteq> []);
                    pytest_args =
                      (if given
                       then py_join '' ''
                              ((if show_output a then [''-s''] else [])
                               @ (case match_test a of
                                    None \<Rightarrow> []
                                  | Some m \<Rightarrow> if m \<noteq> [] then [''-k '' @ m] else [])
                               @ files)
                       else []);
                    w2 = (if given then w1\<lparr>environ := (environ w1)(''PYTESTARGS'' \<mapsto> pytest_args)\<rparr>
                          else w1)
                in (Inr (if envs = [] then tox_envlist t else envs, pytest_args),
                    s\<lparr>fs := w2\<rparr>))))"

text \<open>
  Lines 99 to 101: the post-steps of a synchronization. The two \<open>emit\<close> record the calls.
\<close>

fun post_steps :: "tools \<Rightarrow> bool \<Rightarrow> string list \<Rightarrow> state \<Rightarrow> (error + unit) \<times> state" where
  "post_steps t dbg [] s = (Inr (), s)"
| "post_steps t dbg (env # envs) s =
     (case strip_version_from_entry_scripts t env (emit (Call_strip env) s) of
        (Inl e, s1) \<Rightarrow> (Inl e, s1)
      | (Inr _, s1) \<Rightarrow>
          (case install_editable_dependencies t env dbg (emit (Call_install env) s1) of
             (Inl e, s2) \<Rightarrow> (Inl e, s2)
           | (Inr _, s2) \<Rightarrow> post_steps t dbg envs s2))"

definition tox_cmd :: "tools \<Rightarrow> string list \<Rightarrow> bool \<Rightarrow> cmd" where
  "tox_cmd t envs recr =
     Argv ([''tox'', ''-c'', tox_path t]
           @ (if envs \<noteq> [] then [''-e'', py_join '','' envs] else [])
           @ (if recr then [''-r''] else []))"

text \<open>Lines 88 to 101: the branch \<^verbatim>\<open>elif redevelop or recreate\<close>.\<close>

definition synchronize :: "tools \<Rightarrow> string list \<Rightarrow> bool \<Rightarrow> bool \<Rightarrow> state \<Rightarrow> (error + unit) \<times> state" where
  "synchronize t envs recr dbg s =
     (case run t (tox_cmd t envs recr) (Some (repo_path t)) True s of
        (Inl e, s1) \<Rightarrow> (Inl e, s1)
      | (Inr _, s1) \<Rightarrow> post_steps t dbg envs s1)"

text \<open>
  Lines 120 to 132: the commands of an environment that is used as it is. The loop runs for
  an element \<open>env\<close> of \<open>envs\<close>, so \<^verbatim>\<open>envs[-1]\<close> is \<open>last envs\<close>.
\<close>

fun run_commands ::
  "tools \<Rightarrow> string \<Rightarrow> string list \<Rightarrow> string \<Rightarrow> string list \<Rightarrow> state \<Rightarrow> (error + unit) \<times> state"
where
  "run_commands t env envs pytest_args [] s = (Inr (), s)"
| "run_commands t env envs pytest_args (command # commands) s =
     (case py_split (path_join (path_join (tox_envdir t env) ''bin'') command) of
        [] \<Rightarrow> (Inl IndexError, s)
      | command_path # _ \<Rightarrow>
          if path_exists (fs s) command_path
          then (case run t
                       (Shell (''. '' @ path_join (path_join (tox_envdir t env) ''bin'') ''activate''
                          @ ''; ''
                          @ (if contains ''py.test''
                                  (path_join (path_join (tox_envdir t env) ''bin'') command)
                             then py_replace ''{env:PYTESTARGS:}'' pytest_args
                                    (path_join (path_join (tox_envdir t env) ''bin'') command)
                             else path_join (path_join (tox_envdir t env) ''bin'') command)))
                       (Some (repo_path t)) True s of
                  (Inl e, s1) \<Rightarrow> (Inl e, s1)
                | (Inr _, s1) \<Rightarrow>
                    run_commands t env envs pytest_args commands
                      (if env \<noteq> last envs then emit (Print []) s1 else s1))
          else run_commands t env envs pytest_args commands
                 (emit (Log_error (command_path @ '' does not exist'')) s))"

text \<open>
  Lines 104 to 132: the body of the loop of a plain run. \<open>again\<close> is the call
  \<^verbatim>\<open>test([env], redevelop=True)\<close> of line 114.
\<close>

definition plain_env ::
  "(string \<Rightarrow> state \<Rightarrow> (error + unit) \<times> state) \<Rightarrow> tools \<Rightarrow> string list \<Rightarrow> string \<Rightarrow> string
     \<Rightarrow> state \<Rightarrow> (error + unit) \<times> state"
where
  "plain_env again t envs pytest_args env s =
     (case needs_redevelop t (fs s) env of
        Inl e \<Rightarrow> (Inl e, s)
      | Inr True \<Rightarrow> again env s
      | Inr False \<Rightarrow>
          run_commands t env envs pytest_args (tox_commands t env)
            (if length envs > 1 then emit (Print env) s else s))"

fun plain_loop ::
  "(string \<Rightarrow> state \<Rightarrow> (error + unit) \<times> state) \<Rightarrow> tools \<Rightarrow> string list \<Rightarrow> string \<Rightarrow> string list
     \<Rightarrow> state \<Rightarrow> (error + unit) \<times> state"
where
  "plain_loop again t envs pytest_args [] s = (Inr (), s)"
| "plain_loop again t envs pytest_args (env # rest) s =
     (case plain_env again t envs pytest_args env s of
        (Inl e, s1) \<Rightarrow> (Inl e, s1)
      | (Inr _, s1) \<Rightarrow> plain_loop again t envs pytest_args rest s1)"

text \<open>
  \<^verbatim>\<open>test\<close>, lines 31 to 132. The function calls itself at line 114 with
  \<^verbatim>\<open>redevelop=True\<close>, and a call with \<^verbatim>\<open>redevelop=True\<close> never reaches line 114: the
  recursion is one call deep. \<open>test_body again\<close> is the function's body with \<open>again\<close> for the
  call of line 114; \<open>test_redevelop\<close> is that call, and \<open>test\<close> the command.
\<close>

definition test_body ::
  "(string \<Rightarrow> state \<Rightarrow> (error + unit) \<times> state) \<Rightarrow> tools \<Rightarrow> test_args \<Rightarrow> state
     \<Rightarrow> (error + unit) \<times> state"
where
  "test_body again t a s =
     (case test_setup t a s of
        (Inl e, s1) \<Rightarrow> (Inl e, s1)
      | (Inr (envs, pytest_args), s1) \<Rightarrow>
          if dependencies a then show_loop t envs s1
          else if redevelop a \<or> recreate a then synchronize t envs (recreate a) (debug a) s1
          else plain_loop again t envs pytest_args envs s1)"

definition redevelop_args :: "string \<Rightarrow> test_args" where
  "redevelop_args env =
     \<lparr>env_or_file = [env], dependencies = False, redevelop = True, recreate = False,
      show_output = False, match_test = None, debug = False\<rparr>"

definition test_redevelop :: "tools \<Rightarrow> string \<Rightarrow> state \<Rightarrow> (error + unit) \<times> state" where
  "test_redevelop t env s = test_body (\<lambda>_ s'. (Inr (), s')) t (redevelop_args env) s"

definition test :: "tools \<Rightarrow> test_args \<Rightarrow> state \<Rightarrow> (error + unit) \<times> state" where
  "test t a s = test_body (test_redevelop t) t a s"

section \<open>Observations and example inputs\<close>



text \<open>What a trace shows: the subprocesses, the tox runs, the calls of the post-steps.\<close>

fun run_of :: "event \<Rightarrow> cmd list" where
  "run_of (Run c cwd) = [c]"
| "run_of e = []"

definition runs :: "event list \<Rightarrow> cmd list" where
  "runs evs = concat (map run_of evs)"


definition is_call :: "event \<Rightarrow> bool" where
  "is_call e = (case e of Call_strip _ \<Rightarrow> True | Call_install _ \<Rightarrow> True | _ \<Rightarrow> False)"

definition calls :: "event list \<Rightarrow> event list" where
  "calls evs = filter is_call evs"

fun written_path :: "event \<Rightarrow> path list" where
  "written_path (Write p c) = [p]"
| "written_path e = []"

definition written :: "event list \<Rightarrow> path list" where
  "written evs = concat (map written_path evs)"

definition new_events :: "state \<Rightarrow> state \<Rightarrow> event list" where
  "new_events s s' = drop (length (trace s)) (trace s')"

text \<open>The two pip commands of lines 224 and 227 for one product.\<close>

definition pip_cmds :: "tools \<Rightarrow> path \<Rightarrow> string \<Rightarrow> cmd list" where
  "pip_cmds t pip lib =
     [Argv [pip, ''uninstall'', lib, ''-y''],
      Argv [pip, ''install'', ''--editable'', product_path t lib]]"


text \<open>
  The normalizer in the words of the specification. A dotted numeric version is made of
  groups of digits with single dots between them. \<open>pinned_rest name s\<close> is what follows when
  \<open>s\<close> starts with the product's own name, \<^verbatim>\<open>==\<close> and a run of digits and dots (the longest
  one); \<open>replace_pinned\<close> replaces every such occurrence, from left to right, with the bare
  name.
\<close>

definition is_digit :: "char \<Rightarrow> bool" where
  "is_digit c = (c \<in> set ''0123456789'')"

definition dotted_numeric :: "string \<Rightarrow> bool" where
  "dotted_numeric v =
     (v \<noteq> [] \<and> list_all version_char v \<and> is_digit (hd v) \<and> is_digit (last v)
      \<and> \<not> contains ''..'' v)"

definition pinned_rest :: "string \<Rightarrow> string \<Rightarrow> string option" where
  "pinned_rest name s =
     (if prefix (name @ ''=='') s
         \<and> takeWhile version_char (drop (length name + 2) s) \<noteq> []
      then Some (dropWhile version_char (drop (length name + 2) s))
      else None)"

fun has_pinned :: "string \<Rightarrow> string \<Rightarrow> bool" where
  "has_pinned name [] = False"
| "has_pinned name (c # cs) = (pinned_rest name (c # cs) \<noteq> None \<or> has_pinned name cs)"

lemma pinned_rest_shorter:
  assumes "pinned_rest name s = Some r"
  shows "length r < length s"
proof -
  from assms have p: "prefix (name @ ''=='') s"
    and r: "r = dropWhile version_char (drop (length name + 2) s)"
    by (auto simp: pinned_rest_def split: if_splits)
  from p have "length name + 2 \<le> length s"
    using prefix_length_le by fastforce
  moreover have "length r \<le> length (drop (length name + 2) s)"
    unfolding r by (rule length_dropWhile_le)
  ultimately show ?thesis by simp
qed

function replace_pinned :: "string \<Rightarrow> string \<Rightarrow> string" where
  "replace_pinned name [] = []"
| "replace_pinned name (c # cs) =
     (case pinned_rest name (c # cs) of
        Some r \<Rightarrow> name @ replace_pinned name r
      | None \<Rightarrow> c # replace_pinned name cs)"
  by pat_completeness auto
termination
  by (relation "measure (\<lambda>(name, s). length s)") (auto dest: pinned_rest_shorter)

text \<open>
  What lines 148 to 151 leave in one file, and whether that content matches again: the
  replacement has completed a new match, as \<^verbatim>\<open>mytool==1==2\<close> does, which becomes \<^verbatim>\<open>mytool==2\<close>.
\<close>

definition normalized :: "pattern \<Rightarrow> string \<Rightarrow> string \<Rightarrow> string" where
  "normalized re name content =
     (if pattern_search re content then pattern_sub re name content else content)"


fun debug_of :: "event \<Rightarrow> string list" where
  "debug_of (Log_debug m) = [m]"
| "debug_of e = []"

definition debug_messages :: "event list \<Rightarrow> string list" where
  "debug_messages evs = concat (map debug_of evs)"

text \<open>
  A workspace for the examples: the product \<open>mytool\<close> with the environments \<open>py26\<close> and
  \<open>py27\<close>, and the sibling checkout \<open>libA\<close>.
\<close>

definition demo_tools ::
  "(world \<Rightarrow> cmd \<Rightarrow> path option \<Rightarrow> nat \<times> string \<times> world) \<Rightarrow> string option \<Rightarrow> tools"
where
  "demo_tools ex configured =
     \<lparr>exec = ex,
      repo_check = (\<lambda>w. None),
      repo_path = ''/ws/mytool'',
      abspath = (\<lambda>p. p),
      tox_path = ''/ws/mytool/tox.ini'',
      tox_envlist = [''py26'', ''py27''],
      tox_envdir = (\<lambda>env. ''/ws/mytool/.tox/'' @ env),
      tox_bindir = (\<lambda>env x. case x of
                       None \<Rightarrow> ''/ws/mytool/.tox/'' @ env @ ''/bin''
                     | Some y \<Rightarrow> ''/ws/mytool/.tox/'' @ env @ ''/bin/'' @ y),
      tox_commands = (\<lambda>env. [''py.test {env:PYTESTARGS:}'']),
      product_name = ''mytool'',
      product_repos = (\<lambda>w. [''/ws/libA'', ''/ws/mytool'']),
      product_path = (\<lambda>lib. ''/ws/'' @ lib),
      expand_product_groups = (\<lambda>names. names),
      editable_product_dependencies = configured,
      re_library = (\<lambda>p. Inl (ReError p))\<rparr>"

definition demo_world ::
  "(path \<times> real) list \<Rightarrow> (path \<times> string list) list \<Rightarrow> (path \<times> string) list \<Rightarrow> world"
where
  "demo_world mtimes dirs files =
     \<lparr>stat_mtime = map_of mtimes, listdir = map_of dirs, file_content = map_of files,
      environ = (\<lambda>v. None), clock = 0\<rparr>"

definition demo_state ::
  "(path \<times> real) list \<Rightarrow> (path \<times> string list) list \<Rightarrow> (path \<times> string) list \<Rightarrow> state"
where
  "demo_state mtimes dirs files = \<lparr>fs = demo_world mtimes dirs files, trace = []\<rparr>"

text \<open>Every subprocess succeeds and prints \<open>out\<close>; every subprocess fails.\<close>

definition exec_ok :: "string \<Rightarrow> world \<Rightarrow> cmd \<Rightarrow> path option \<Rightarrow> nat \<times> string \<times> world" where
  "exec_ok out w c cwd = (0, out, w)"

definition exec_fail :: "world \<Rightarrow> cmd \<Rightarrow> path option \<Rightarrow> nat \<times> string \<times> world" where
  "exec_fail w c cwd = (1, [], w)"

text \<open>Only the command \<open>bad\<close> fails.\<close>

definition exec_fail_on :: "cmd \<Rightarrow> string \<Rightarrow> world \<Rightarrow> cmd \<Rightarrow> path option \<Rightarrow> nat \<times> string \<times> world" where
  "exec_fail_on bad out w c cwd = (if c = bad then 1 else 0, out, w)"

text \<open>The call \<^verbatim>\<open>test(redevelop=True)\<close>, and the workspaces and worlds of the scenarios.\<close>

definition redevelop_all :: test_args where
  "redevelop_all =
     \<lparr>env_or_file = [], dependencies = False, redevelop = True, recreate = False,
      show_output = False, match_test = None, debug = False\<rparr>"

definition two_libs_tools :: tools where
  "two_libs_tools =
     (demo_tools
        (exec_fail_on (Argv [''/ws/mytool/.tox/py27/bin/pip'', ''install'', ''--editable'', ''/ws/libA''])
           ''libA libB'')
        (Some ''libA libB''))
     \<lparr>product_repos := (\<lambda>w. [''/ws/libA'', ''/ws/libB''])\<rparr>"

definition scenario_tools :: tools where
  "scenario_tools =
     (demo_tools (exec_ok ''libA libC'') (Some ''libA libB''))
     \<lparr>product_repos := (\<lambda>w. [''/ws/libA''])\<rparr>"

text \<open>A product name in which no character is special in a regular expression.\<close>

definition plain_name :: "string \<Rightarrow> bool" where
  "plain_name name = list_all (\<lambda>c. \<not> regex_special c \<and> c \<noteq> CHR ''.'') name"

text \<open>Script directories of the environment \<open>py27\<close> for the scenarios of the normalizer.\<close>

definition bin27 :: path where
  "bin27 = ''/ws/mytool/.tox/py27/bin''"

definition scripts_state :: "(string \<times> string) list \<Rightarrow> state" where
  "scripts_state files =
     demo_state [(bin27, 1)] [(bin27, map fst files)]
       (map (\<lambda>(script, content). (bin27 @ ''/'' @ script, content)) files)"

text \<open>
  The allow-list the configured value yields: its names, with the groups expanded (line
  213), and no name when nothing is configured.
\<close>

definition allow_list :: "tools \<Rightarrow> string list" where
  "allow_list t =
     (case editable_product_dependencies t of
        None \<Rightarrow> []
      | Some configured \<Rightarrow> expand_product_groups t (py_split configured))"

text \<open>
  The loop of the linker in the words of the claim as amended, from the world \<open>w\<close>: for each
  product in turn the announcement, the uninstall, whose exit code is not looked at, and
  the editable install; an install that fails leaves the record of the caught error, and
  the next product follows. The result is the events and the world the loop leaves.
\<close>

fun linking :: "tools \<Rightarrow> path \<Rightarrow> string list \<Rightarrow> world \<Rightarrow> event list \<times> world" where
  "linking t pip [] w = ([], w)"
| "linking t pip (lib # libs) w =
     (case exec t w (Argv [pip, ''uninstall'', lib, ''-y'']) None of
        (uninstall_code, uninstall_out, w1) \<Rightarrow>
          (case exec t w1 (Argv [pip, ''install'', ''--editable'', product_path t lib]) None of
             (install_code, install_out, w2) \<Rightarrow>
               (case linking t pip libs w2 of
                  (evs, w') \<Rightarrow>
                    ([Log_info (''Installing '' @ lib @ '' in editable mode''),
                      Run (Argv [pip, ''uninstall'', lib, ''-y'']) None,
                      Run (Argv [pip, ''install'', ''--editable'', product_path t lib]) None]
                     @ (if install_code \<noteq> 0
                        then [Log_exception
                                (''An error occurred when installing '' @ lib @ '' in editable mode'')
                                (RunError (Argv [pip, ''install'', ''--editable'', product_path t lib])
                                   install_code)]
                        else [])
                     @ evs,
                     w'))))"

text \<open>Only the uninstall of \<open>libA\<close> fails.\<close>

definition uninstall_fails_tools :: tools where
  "uninstall_fails_tools =
     (demo_tools
        (exec_fail_on (Argv [''/ws/mytool/.tox/py27/bin/pip'', ''uninstall'', ''libA'', ''-y''])
           ''libA libB'')
        (Some ''libA libB''))
     \<lparr>product_repos := (\<lambda>w. [''/ws/libA'', ''/ws/libB''])\<rparr>"




section \<open>Traces of the building blocks\<close>


lemma runs_append [simp]: "runs (xs @ ys) = runs xs @ runs ys"
  by (simp add: runs_def)

lemma runs_Nil [simp]: "runs [] = []"
  by (simp add: runs_def)

lemma calls_append [simp]: "calls (xs @ ys) = calls xs @ calls ys"
  by (simp add: calls_def)

lemma calls_Nil [simp]: "calls [] = []"
  by (simp add: calls_def)

lemma new_events_append [simp]: "trace s' = trace s @ evs \<Longrightarrow> new_events s s' = evs"
  by (simp add: new_events_def)

lemma run_trace: "run t c cwd r s = (x, s') \<Longrightarrow> trace s' = trace s @ [Run c cwd]"
  by (auto simp: run_def split: prod.splits)

lemma run_never_raises: "\<exists>out s'. run t c cwd False s = (Inr out, s')"
  by (auto simp: run_def split: prod.splits)

lemma run_failure:
  "exec t (fs s) c cwd = (code, out, w') \<Longrightarrow> code \<noteq> 0 \<Longrightarrow>
   run t c cwd True s = (Inl (RunError c code), s\<lparr>fs := w', trace := trace s @ [Run c cwd]\<rparr>)"
  by (simp add: run_def)

lemma test_setup_trace: "test_setup t a s = (r, s1) \<Longrightarrow> trace s1 = trace s"
  by (auto simp: test_setup_def Let_def split: option.splits sum.splits)




lemma reinstall_editable_trace:
  assumes "reinstall_editable t pip lib s = (r, s')"
  shows "\<exists>evs. trace s' = trace s @ evs \<and> runs evs = pip_cmds t pip lib \<and> calls evs = []"
proof -
  obtain out s1 where u: "run t (Argv [pip, ''uninstall'', lib, ''-y'']) None False s = (Inr out, s1)"
    using run_never_raises by blast
  obtain x s2 where i: "run t (Argv [pip, ''install'', ''--editable'', product_path t lib]) None True s1 = (x, s2)"
    by (cases "run t (Argv [pip, ''install'', ''--editable'', product_path t lib]) None True s1")
  from assms u i have "s' = s2"
    by (auto simp: reinstall_editable_def split: sum.splits)
  with run_trace [OF u] run_trace [OF i] show ?thesis
    by (auto simp: pip_cmds_def runs_def calls_def is_call_def)
qed

lemma log_exception_trace:
  "\<exists>evs. trace (log_exception title (reinstall_editable t pip lib) s) = trace s @ evs
         \<and> runs evs = pip_cmds t pip lib \<and> calls evs = []"
proof -
  obtain r s' where b: "reinstall_editable t pip lib s = (r, s')"
    by (cases "reinstall_editable t pip lib s")
  from reinstall_editable_trace [OF b] obtain evs where
    e: "trace s' = trace s @ evs" "runs evs = pip_cmds t pip lib" "calls evs = []" by blast
  show ?thesis
  proof (cases r)
    case (Inl err)
    with b e have "trace (log_exception title (reinstall_editable t pip lib) s)
        = trace s @ (evs @ [Log_exception title err])"
      by (simp add: log_exception_def emit_def)
    moreover have "runs (evs @ [Log_exception title err]) = pip_cmds t pip lib"
      using e by (simp add: runs_def)
    moreover have "calls (evs @ [Log_exception title err]) = []"
      using e by (simp add: calls_def is_call_def)
    ultimately show ?thesis by blast
  next
    case (Inr u)
    with b e show ?thesis
      by (auto simp: log_exception_def)
  qed
qed

lemma link_loop_trace:
  "\<exists>evs. trace (link_loop t pip libs s) = trace s @ evs
         \<and> runs evs = concat (map (pip_cmds t pip) libs) \<and> calls evs = []"
proof (induction libs arbitrary: s)
  case Nil
  show ?case by simp
next
  case (Cons lib libs)
  let ?i = "Log_info (''Installing '' @ lib @ '' in editable mode'')"
  let ?s1 = "emit ?i s"
  let ?s2 = "log_exception (''An error occurred when installing '' @ lib @ '' in editable mode'')
               (reinstall_editable t pip lib) ?s1"
  from log_exception_trace [of _ t pip lib ?s1] obtain evs1 where
    e1: "trace ?s2 = trace ?s1 @ evs1" "runs evs1 = pip_cmds t pip lib" "calls evs1 = []" by blast
  from Cons.IH [of ?s2] obtain evs2 where
    e2: "trace (link_loop t pip libs ?s2) = trace ?s2 @ evs2"
        "runs evs2 = concat (map (pip_cmds t pip) libs)" "calls evs2 = []" by blast
  have "trace (link_loop t pip (lib # libs) s) = trace s @ (?i # evs1 @ evs2)"
    using e1 e2 by (simp add: emit_def)
  moreover have "runs (?i # evs1 @ evs2) = concat (map (pip_cmds t pip) (lib # libs))"
    using e1 e2 by (simp add: runs_def)
  moreover have "calls (?i # evs1 @ evs2) = []"
    using e1 e2 by (simp add: calls_def is_call_def)
  ultimately show ?case by blast
qed

lemma install_editable_dependencies_configured:
  assumes cfg: "editable_product_dependencies t = Some configured" "configured \<noteq> []"
    and intro: "run t (Argv [tox_bindir t env (Some ''python''), ''-c'',
                       introspection_script (product_name t)]) None True s = (Inr out, s1)"
  shows "install_editable_dependencies t env dbg s =
           (Inr (),
            link_loop t (tox_bindir t env (Some ''pip''))
              (select_libs (expand_product_groups t (py_split configured))
                 (map basename (product_repos t (fs s1))) (py_split out)) s1)"
  using cfg intro by (simp add: install_editable_dependencies_def Let_def)


text \<open>The loop of the linker leaves the events and the world that \<open>linking\<close> describes.\<close>

lemma link_loop_linking:
  "link_loop t pip libs s
     = s\<lparr>fs := snd (linking t pip libs (fs s)),
         trace := trace s @ fst (linking t pip libs (fs s))\<rparr>"
proof (induction libs arbitrary: s)
  case Nil
  show ?case by simp
next
  case (Cons lib libs)
  obtain c1 o1 w1 where u: "exec t (fs s) (Argv [pip, ''uninstall'', lib, ''-y'']) None = (c1, o1, w1)"
    by (cases "exec t (fs s) (Argv [pip, ''uninstall'', lib, ''-y'']) None")
  obtain c2 o2 w2 where i: "exec t w1 (Argv [pip, ''install'', ''--editable'', product_path t lib]) None
      = (c2, o2, w2)"
    by (cases "exec t w1 (Argv [pip, ''install'', ''--editable'', product_path t lib]) None")
  obtain evs w' where r: "linking t pip libs w2 = (evs, w')"
    by (cases "linking t pip libs w2")
  let ?s2 = "log_exception (''An error occurred when installing '' @ lib @ '' in editable mode'')
               (reinstall_editable t pip lib)
               (emit (Log_info (''Installing '' @ lib @ '' in editable mode'')) s)"
  have s2: "?s2 = s\<lparr>fs := w2,
                     trace := trace s @
                       [Log_info (''Installing '' @ lib @ '' in editable mode''),
                        Run (Argv [pip, ''uninstall'', lib, ''-y'']) None,
                        Run (Argv [pip, ''install'', ''--editable'', product_path t lib]) None]
                       @ (if c2 \<noteq> 0
                          then [Log_exception
                                  (''An error occurred when installing '' @ lib @ '' in editable mode'')
                                  (RunError (Argv [pip, ''install'', ''--editable'', product_path t lib]) c2)]
                          else [])\<rparr>"
    using u i by (simp add: log_exception_def reinstall_editable_def run_def emit_def)
  have "link_loop t pip (lib # libs) s = link_loop t pip libs ?s2" by simp
  also have "\<dots> = ?s2\<lparr>fs := snd (linking t pip libs (fs ?s2)),
                       trace := trace ?s2 @ fst (linking t pip libs (fs ?s2))\<rparr>"
    by (rule Cons.IH)
  finally show ?case
    unfolding s2 using u i r by simp
qed

lemma written_append [simp]: "written (xs @ ys) = written xs @ written ys"
  by (simp add: written_def)

lemma written_Nil [simp]: "written [] = []"
  by (simp add: written_def)

lemma strip_loop_trace:
  "strip_loop re name script_bin scripts acc s = (r, s') \<Longrightarrow>
   \<exists>evs. trace s' = trace s @ evs \<and> (\<forall>e \<in> set evs. \<exists>p c. e = Write p c)
         \<and> (\<forall>removed. r = Inr removed \<longrightarrow> removed = acc @ map basename (written evs))"
proof (induction scripts arbitrary: acc s)
  case Nil
  then show ?case by auto
next
  case (Cons script rest)
  let ?p = "path_join script_bin script"
  show ?case
  proof (cases "file_content (fs s) ?p")
    case None
    with Cons.prems show ?thesis by auto
  next
    case (Some content)
    show ?thesis
    proof (cases "pattern_search re content")
      case False
      with Cons.prems Some have "strip_loop re name script_bin rest acc s = (r, s')" by simp
      from Cons.IH [OF this] show ?thesis .
    next
      case True
      let ?s1 = "write_file ?p (pattern_sub re name content) s"
      from Cons.prems Some True have
        "strip_loop re name script_bin rest (acc @ [basename ?p]) ?s1 = (r, s')" by simp
      from Cons.IH [OF this] obtain evs where
        e: "trace s' = trace ?s1 @ evs" "\<forall>e \<in> set evs. \<exists>p c. e = Write p c"
           "\<forall>removed. r = Inr removed \<longrightarrow> removed = (acc @ [basename ?p]) @ map basename (written evs)"
        by blast
      let ?evs = "Write ?p (pattern_sub re name content) # evs"
      have "trace s' = trace s @ ?evs" using e(1) by (simp add: write_file_def)
      moreover have "\<forall>e \<in> set ?evs. \<exists>p c. e = Write p c" using e(2) by simp
      moreover have "\<forall>removed. r = Inr removed \<longrightarrow> removed = acc @ map basename (written ?evs)"
        using e(3) by (simp add: written_def)
      ultimately show ?thesis by blast
    qed
  qed
qed



lemma test_synchronizes:
  assumes "test_setup t a s = (Inr (envs, pa), s1)" and "\<not> dependencies a"
    and "redevelop a \<or> recreate a"
  shows "test t a s = synchronize t envs (recreate a) (debug a) s1"
  using assms by (auto simp: test_def test_body_def)

section \<open>The pattern and the loop of the normalizer\<close>

lemma compile_name_literal:
  "compile_name name = Some ats \<Longrightarrow> CHR ''.'' \<notin> set name \<Longrightarrow> ats = map Lit name"
  by (induction name arbitrary: ats) (auto split: if_splits)

lemma match_atoms_literal:
  "match_atoms (map Lit xs) s = (if prefix xs s then Some (drop (length xs) s) else None)"
proof (induction xs arbitrary: s)
  case Nil
  show ?case by simp
next
  case (Cons x xs)
  show ?case
  proof (cases s)
    case Nil
    then show ?thesis by simp
  next
    case (Cons c cs)
    with Cons.IH [of cs] show ?thesis by simp
  qed
qed


lemma match_here_literal:
  "match_here (map Lit name) s = pinned_rest name s"
proof -
  have "map Lit name @ [Lit CHR ''='', Lit CHR ''=''] = map Lit (name @ ''=='')" by simp
  then have "match_atoms (map Lit name @ [Lit CHR ''='', Lit CHR ''='']) s
               = (if prefix (name @ ''=='') s then Some (drop (length name + 2) s) else None)"
    by (simp only: match_atoms_literal) simp
  then show ?thesis by (simp add: match_here_def pinned_rest_def)
qed

lemma re_search_literal: "re_search (map Lit name) s = has_pinned name s"
  by (induction s) (simp_all add: match_here_literal)

lemma re_sub_literal: "re_sub (map Lit name) name s = replace_pinned name s"
  by (induction name s rule: replace_pinned.induct)
     (simp_all add: match_here_literal split: option.splits)

lemma re_sub_no_match: "\<not> re_search ats s \<Longrightarrow> re_sub ats repl s = s"
  by (induction s) simp_all

lemma replace_pinned_no_match: "\<not> has_pinned name s \<Longrightarrow> replace_pinned name s = s"
  by (induction s) simp_all


lemma write_file_simps [simp]:
  "file_content (fs (write_file p c s)) = (file_content (fs s))(p \<mapsto> c)"
  "listdir (fs (write_file p c s)) = listdir (fs s)"
  "stat_mtime (fs (write_file p c s)) = (stat_mtime (fs s))(p \<mapsto> clock (fs s))"
  "trace (write_file p c s) = trace s @ [Write p c]"
  by (simp_all add: write_file_def)

lemma debug_messages_append [simp]:
  "debug_messages (xs @ ys) = debug_messages xs @ debug_messages ys"
  by (simp add: debug_messages_def)

lemma debug_messages_writes:
  "\<forall>e \<in> set evs. \<exists>p c. e = Write p c \<Longrightarrow> debug_messages evs = []"
  by (induction evs) (auto simp: debug_messages_def)

lemma written_log_debug [simp]: "written [Log_debug m] = []"
  by (simp add: written_def)

lemma strip_loop_frame:
  "strip_loop re name script_bin scripts acc s = (r, s') \<Longrightarrow>
   listdir (fs s') = listdir (fs s)
   \<and> (\<forall>q. path_exists (fs s) q \<longrightarrow> path_exists (fs s') q)
   \<and> (\<forall>q. file_content (fs s) q \<noteq> None \<longrightarrow> file_content (fs s') q \<noteq> None)"
proof (induction scripts arbitrary: acc s)
  case Nil
  then show ?case by auto
next
  case (Cons script rest)
  let ?p = "path_join script_bin script"
  show ?case
  proof (cases "file_content (fs s) ?p")
    case None
    with Cons.prems show ?thesis by auto
  next
    case (Some content)
    show ?thesis
    proof (cases "pattern_search re content")
      case False
      with Cons.prems Some have "strip_loop re name script_bin rest acc s = (r, s')" by simp
      from Cons.IH [OF this] show ?thesis .
    next
      case True
      let ?s1 = "write_file ?p (pattern_sub re name content) s"
      from Cons.prems Some True have
        "strip_loop re name script_bin rest (acc @ [basename ?p]) ?s1 = (r, s')" by simp
      from Cons.IH [OF this] show ?thesis
        by (auto simp: path_exists_def)
    qed
  qed
qed

text \<open>A file whose content does not match is neither written nor changed.\<close>

lemma strip_loop_keeps:
  "strip_loop re name script_bin scripts acc s = (r, s') \<Longrightarrow>
   \<forall>c. file_content (fs s) p = Some c \<longrightarrow> \<not> pattern_search re c \<Longrightarrow>
   file_content (fs s') p = file_content (fs s) p \<and> p \<notin> set (written (new_events s s'))"
proof (induction scripts arbitrary: acc s)
  case Nil
  then show ?case by (simp add: new_events_def)
next
  case (Cons script rest)
  let ?p = "path_join script_bin script"
  show ?case
  proof (cases "file_content (fs s) ?p")
    case None
    with Cons.prems show ?thesis by (auto simp: new_events_def)
  next
    case (Some content)
    show ?thesis
    proof (cases "pattern_search re content")
      case False
      with Cons.prems Some have "strip_loop re name script_bin rest acc s = (r, s')" by simp
      from Cons.IH [OF this Cons.prems(2)] show ?thesis .
    next
      case True
      with Some Cons.prems(2) have ne: "?p \<noteq> p" by auto
      let ?s1 = "write_file ?p (pattern_sub re name content) s"
      from Cons.prems Some True have
        l: "strip_loop re name script_bin rest (acc @ [basename ?p]) ?s1 = (r, s')" by simp
      from ne have same: "file_content (fs ?s1) p = file_content (fs s) p" by simp
      with Cons.prems(2) have "\<forall>c. file_content (fs ?s1) p = Some c \<longrightarrow> \<not> pattern_search re c" by simp
      from Cons.IH [OF l this] same have
        k: "file_content (fs s') p = file_content (fs s) p"
           "p \<notin> set (written (new_events ?s1 s'))" by auto
      from strip_loop_trace [OF l] obtain evs where e: "trace s' = trace ?s1 @ evs" by blast
      then have "new_events ?s1 s' = evs"
        "new_events s s' = Write ?p (pattern_sub re name content) # evs"
        by (simp_all add: new_events_def)
      with k ne show ?thesis by (simp add: written_def)
    qed
  qed
qed


text \<open>The effect of a loop that completes, over a listing without repetitions.\<close>

lemma strip_loop_effect:
  "strip_loop re name script_bin scripts acc s = (Inr removed, s') \<Longrightarrow>
   distinct (map (path_join script_bin) scripts) \<Longrightarrow>
   (\<forall>script \<in> set scripts. \<exists>c. file_content (fs s) (path_join script_bin script) = Some c
        \<and> file_content (fs s') (path_join script_bin script) = Some (normalized re name c)
        \<and> (path_join script_bin script \<in> set (written (new_events s s')) \<longleftrightarrow> pattern_search re c))
   \<and> (\<forall>p. p \<notin> path_join script_bin ` set scripts \<longrightarrow>
          file_content (fs s') p = file_content (fs s) p \<and> p \<notin> set (written (new_events s s')))"
proof (induction scripts arbitrary: acc s)
  case Nil
  then show ?case by (simp add: new_events_def)
next
  case (Cons script rest)
  let ?p = "path_join script_bin script"
  from Cons.prems(2) have d: "distinct (map (path_join script_bin) rest)"
    and np: "?p \<notin> path_join script_bin ` set rest" by auto
  from Cons.prems(1) obtain content where c: "file_content (fs s) ?p = Some content"
    by (cases "file_content (fs s) ?p") auto
  show ?case
  proof (cases "pattern_search re content")
    case False
    with Cons.prems c have l: "strip_loop re name script_bin rest acc s = (Inr removed, s')" by simp
    note ih = Cons.IH [OF l d]
    from c False have "\<forall>c. file_content (fs s) ?p = Some c \<longrightarrow> \<not> pattern_search re c" by simp
    from strip_loop_keeps [OF Cons.prems(1) this] c False
    have "file_content (fs s') ?p = Some (normalized re name content)"
      "?p \<notin> set (written (new_events s s'))" by (auto simp: normalized_def)
    with c False ih show ?thesis by auto
  next
    case True
    let ?s1 = "write_file ?p (pattern_sub re name content) s"
    from Cons.prems c True have
      l: "strip_loop re name script_bin rest (acc @ [basename ?p]) ?s1 = (Inr removed, s')" by simp
    note ih = Cons.IH [OF l d]
    from strip_loop_trace [OF l] obtain evs where e: "trace s' = trace ?s1 @ evs" by blast
    then have ne: "new_events ?s1 s' = evs"
      "new_events s s' = Write ?p (pattern_sub re name content) # evs"
      by (simp_all add: new_events_def)
    have w: "set (written (new_events s s')) = insert ?p (set (written (new_events ?s1 s')))"
      unfolding ne by (simp add: written_def)
    from ih np True have p1: "file_content (fs s') ?p = Some (normalized re name content)"
      by (simp add: normalized_def)
    have rest: "\<forall>script \<in> set rest. \<exists>c. file_content (fs s) (path_join script_bin script) = Some c
        \<and> file_content (fs s') (path_join script_bin script) = Some (normalized re name c)
        \<and> (path_join script_bin script \<in> set (written (new_events s s')) \<longleftrightarrow> pattern_search re c)"
    proof
      fix x assume x: "x \<in> set rest"
      with np have "path_join script_bin x \<noteq> ?p" by (metis imageI)
      with ih x w show "\<exists>c. file_content (fs s) (path_join script_bin x) = Some c
        \<and> file_content (fs s') (path_join script_bin x) = Some (normalized re name c)
        \<and> (path_join script_bin x \<in> set (written (new_events s s')) \<longleftrightarrow> pattern_search re c)"
        by (auto simp: fun_upd_def split: if_splits)
    qed
    have other: "\<forall>p. p \<notin> path_join script_bin ` set (script # rest) \<longrightarrow>
          file_content (fs s') p = file_content (fs s) p \<and> p \<notin> set (written (new_events s s'))"
      using ih w by (auto simp: fun_upd_def split: if_splits)
    from c p1 True w rest other show ?thesis by auto
  qed
qed




text \<open>What a call of the normalizer that returns has done.\<close>

lemma strip_returns:
  assumes "strip_version_from_entry_scripts t env s = (Inr v, s')"
  shows "v = None
       \<and> (if path_exists (fs s) (tox_bindir t env None)
          then \<exists>re scripts removed s1.
                 re_compile t (product_name t) = Inr re
                 \<and> listdir (fs s) (tox_bindir t env None) = Some scripts
                 \<and> strip_loop re (product_name t) (tox_bindir t env None) scripts [] s
                     = (Inr removed, s1)
                 \<and> s' = (if removed \<noteq> []
                         then emit (Log_debug (''Removed version spec from entry script(s): ''
                                      @ py_join '', '' removed)) s1
                         else s1)
          else s' = s)"
  using assms
  by (auto simp: strip_version_from_entry_scripts_def Let_def
      split: if_splits option.splits prod.splits sum.splits)

lemma strip_new_events:
  assumes "strip_loop re name script_bin scripts [] s = (Inr removed, s1)"
    and "s' = (if removed \<noteq> [] then emit (Log_debug m) s1 else s1)"
  shows "written (new_events s s') = written (new_events s s1)"
    and "removed = map basename (written (new_events s s1))"
    and "debug_messages (new_events s s') = (if removed \<noteq> [] then [m] else [])"
    and "fs s' = fs s1"
proof -
  from strip_loop_trace [OF assms(1)] obtain evs where
    e: "trace s1 = trace s @ evs" "\<forall>e \<in> set evs. \<exists>p c. e = Write p c"
       "removed = map basename (written evs)" by auto
  have n1: "new_events s s1 = evs" using e(1) by simp
  have n2: "new_events s s' = (if removed \<noteq> [] then evs @ [Log_debug m] else evs)"
    using e(1) assms(2) by (simp add: new_events_def emit_def)
  show "written (new_events s s') = written (new_events s s1)"
    unfolding n1 n2 by simp
  show "removed = map basename (written (new_events s s1))"
    unfolding n1 by (rule e(3))
  show "debug_messages (new_events s s') = (if removed \<noteq> [] then [m] else [])"
    unfolding n2 using debug_messages_writes [OF e(2)] by (simp add: debug_messages_def)
  show "fs s' = fs s1" using assms(2) by (simp add: emit_def)
qed

lemma compile_plain_name: "plain_name name \<Longrightarrow> compile_name name = Some (map Lit name)"
  by (induction name) (auto simp: plain_name_def)

text \<open>A name with a special character other than the dot goes to the library as it is.\<close>

lemma re_compile_special_name:
  "re_compile t ''my+tool'' = re_library t (''my+tool==[0-9'' @ [CHR 0x5C] @ ''.]+'')"
  by (simp add: re_compile_def regex_special_def)

lemma re_compile_plain_name:
  "plain_name name \<Longrightarrow>
   re_compile t name
     = Inr \<lparr>pattern_search = re_search (map Lit name), pattern_sub = re_sub (map Lit name)\<rparr>"
  by (simp add: re_compile_def compile_plain_name)

lemma strip_loop_readable:
  "strip_loop re name script_bin scripts acc s = (Inr removed, s') \<Longrightarrow>
   \<forall>script \<in> set scripts. file_content (fs s') (path_join script_bin script) \<noteq> None"
proof (induction scripts arbitrary: acc s)
  case Nil
  then show ?case by simp
next
  case (Cons h rest)
  let ?ph = "path_join script_bin h"
  from Cons.prems(1) obtain content where c: "file_content (fs s) ?ph = Some content"
    by (cases "file_content (fs s) ?ph") auto
  show ?case
  proof (cases "pattern_search re content")
    case False
    with Cons.prems c have l: "strip_loop re name script_bin rest acc s = (Inr removed, s')" by simp
    from strip_loop_frame [OF l] c have "file_content (fs s') ?ph \<noteq> None" by auto
    with Cons.IH [OF l] show ?thesis by simp
  next
    case True
    let ?s1 = "write_file ?ph (pattern_sub re name content) s"
    from Cons.prems c True have
      l: "strip_loop re name script_bin rest (acc @ [basename ?ph]) ?s1 = (Inr removed, s')" by simp
    have "file_content (fs ?s1) ?ph \<noteq> None" by simp
    with strip_loop_frame [OF l] have "file_content (fs s') ?ph \<noteq> None" by blast
    with Cons.IH [OF l] show ?thesis by simp
  qed
qed

text \<open>The equations that evaluate the examples.\<close>

lemmas demo_defs =
  demo_tools_def demo_world_def demo_state_def exec_ok_def exec_fail_def exec_fail_on_def
  redevelop_all_def

lemmas eval_defs =
  test_def test_body_def test_setup_def strip_venv_path_def synchronize_def tox_cmd_def
  run_def emit_def path_exists_def path_join_def Let_def truthy_def
  strip_version_from_entry_scripts_def install_editable_dependencies_def
  re_compile_def regex_special_def match_here_def version_char_def write_file_def basename_def
  log_exception_def reinstall_editable_def select_libs_def py_split_def is_space_def

lemmas scenario_defs = scripts_state_def bin27_def

lemma redevelop_all_setup:
  "test_setup (demo_tools ex configured) redevelop_all (demo_state mtimes dirs files)
     = (Inr ([''py26'', ''py27''], []), demo_state mtimes dirs files)"
  by (simp add: demo_defs test_setup_def strip_venv_path_def truthy_def Let_def)

section \<open>The staleness check and the packaging descriptor\<close>

text \<open>
  Claim C10. For an environment whose root directory exists, the staleness check needs
  \<^verbatim>\<open>setup.py\<close>: when the file exists the check returns a verdict, whether or not
  \<^verbatim>\<open>requirements.txt\<close> exists; when it does not, the check raises the \<^verbatim>\<open>OSError\<close> of
  \<^verbatim>\<open>os.stat\<close> on \<^verbatim>\<open>setup.py\<close> and returns no verdict.
\<close>

theorem staleness_check_needs_setup_py:
  assumes "path_exists w (tox_envdir t env)"
  shows "(path_exists w (path_join (repo_path t) ''setup.py'')
            \<longrightarrow> (\<exists>verdict. needs_redevelop t w env = Inr verdict))
       \<and> (\<not> path_exists w (path_join (repo_path t) ''setup.py'')
            \<longrightarrow> needs_redevelop t w env = Inl (OSError (path_join (repo_path t) ''setup.py'')))"
  using assms
  by (auto simp: needs_redevelop_def requirements_updated_def path_exists_def Let_def
      split: option.splits)

theorem staleness_check_needs_setup_py_witness:
  "needs_redevelop (demo_tools exec_fail None)
     (demo_world [(''/ws/mytool/.tox/py27'', 10)] [] []) ''py27''
     = Inl (OSError ''/ws/mytool/setup.py'')
   \<and> (\<exists>verdict. needs_redevelop (demo_tools exec_fail None)
         (demo_world [(''/ws/mytool/.tox/py27'', 10), (''/ws/mytool/setup.py'', 5)] [] []) ''py27''
         = Inr verdict)"
proof -
  let ?t = "demo_tools exec_fail None"
  let ?w0 = "demo_world [(''/ws/mytool/.tox/py27'', 10)] [] []"
  let ?w1 = "demo_world [(''/ws/mytool/.tox/py27'', 10), (''/ws/mytool/setup.py'', 5)] [] []"
  have e0: "path_exists ?w0 (tox_envdir ?t ''py27'')"
    by (simp add: path_exists_def demo_world_def demo_tools_def)
  have e1: "path_exists ?w1 (tox_envdir ?t ''py27'')"
    by (simp add: path_exists_def demo_world_def demo_tools_def)
  have n0: "\<not> path_exists ?w0 (path_join (repo_path ?t) ''setup.py'')"
    by (simp add: path_exists_def demo_world_def demo_tools_def path_join_def)
  have n1: "path_exists ?w1 (path_join (repo_path ?t) ''setup.py'')"
    by (simp add: path_exists_def demo_world_def demo_tools_def path_join_def)
  have p: "path_join (repo_path ?t) ''setup.py'' = ''/ws/mytool/setup.py''"
    by (simp add: demo_tools_def path_join_def)
  from staleness_check_needs_setup_py [OF e0] n0 p
  have "needs_redevelop ?t ?w0 ''py27'' = Inl (OSError ''/ws/mytool/setup.py'')" by simp
  moreover from staleness_check_needs_setup_py [OF e1] n1
  have "\<exists>verdict. needs_redevelop ?t ?w1 ''py27'' = Inr verdict" by blast
  ultimately show ?thesis by blast
qed

section \<open>The linker with an empty allow-list\<close>

text \<open>
  Claim C8 as it is written fails: a configured value of only whitespace names no product,
  so the allow-list is empty, but the value is not empty, the guard of line 205 lets it
  pass, and the introspection of the declared dependencies runs as a subprocess.
\<close>

theorem blank_allow_list_runs_introspection:
  "allow_list (demo_tools (exec_ok []) (Some ''  '')) = []
   \<and> runs (trace (snd (install_editable_dependencies (demo_tools (exec_ok []) (Some ''  ''))
                          ''py27'' False (demo_state [] [] []))))
     = [Argv [''/ws/mytool/.tox/py27/bin/python'', ''-c'', introspection_script ''mytool'']]"
  by (simp add: allow_list_def demo_defs eval_defs runs_def)

text \<open>
  Claim C8, amended. When the configured value is unset or the empty string, the linker
  returns at once: the state is the one it was given, so no subprocess was started, nothing
  was logged and no file changed. When the value is not empty and the allow-list it yields
  is empty all the same, the one event of the linker is the introspection subprocess: no
  pip command runs.
\<close>

theorem linker_with_empty_allow_list:
  "(\<not> truthy (editable_product_dependencies t) \<longrightarrow>
      install_editable_dependencies t env dbg s = (Inr (), s))
   \<and> (truthy (editable_product_dependencies t) \<and> allow_list t = [] \<longrightarrow>
        (\<forall>r s'. install_editable_dependencies t env dbg s = (r, s') \<longrightarrow>
           new_events s s'
             = [Run (Argv [tox_bindir t env (Some ''python''), ''-c'',
                           introspection_script (product_name t)]) None]))"
proof (intro conjI impI allI)
  assume "\<not> truthy (editable_product_dependencies t)"
  then show "install_editable_dependencies t env dbg s = (Inr (), s)"
    by (auto simp: install_editable_dependencies_def truthy_def split: option.splits)
next
  fix r s'
  assume a: "truthy (editable_product_dependencies t) \<and> allow_list t = []"
    and b: "install_editable_dependencies t env dbg s = (r, s')"
  let ?c = "Argv [tox_bindir t env (Some ''python''), ''-c'', introspection_script (product_name t)]"
  from a obtain configured where
    cfg: "editable_product_dependencies t = Some configured" "configured \<noteq> []"
    and e: "expand_product_groups t (py_split configured) = []"
    by (auto simp: truthy_def allow_list_def split: option.splits)
  obtain x s1 where i: "run t ?c None True s = (x, s1)"
    by (cases "run t ?c None True s")
  have t1: "trace s1 = trace s @ [Run ?c None]" using run_trace [OF i] .
  have "s' = s1"
  proof (cases x)
    case (Inl err)
    with b cfg i show ?thesis by (simp add: install_editable_dependencies_def Let_def)
  next
    case (Inr out)
    with i have "run t ?c None True s = (Inr out, s1)" by simp
    from install_editable_dependencies_configured [OF cfg this, of dbg] b e
    show ?thesis by (simp add: select_libs_def)
  qed
  with t1 show "new_events s s' = [Run ?c None]" by simp
qed

theorem linker_with_empty_allow_list_witness:
  "install_editable_dependencies (demo_tools exec_fail (Some [])) ''py27'' False (demo_state [] [] [])
     = (Inr (), demo_state [] [] [])
   \<and> new_events (demo_state [] [] [])
        (snd (install_editable_dependencies (demo_tools (exec_ok []) (Some ''  '')) ''py27'' False
                (demo_state [] [] [])))
     = [Run (Argv [''/ws/mytool/.tox/py27/bin/python'', ''-c'', introspection_script ''mytool'']) None]"
proof -
  let ?t0 = "demo_tools exec_fail (Some [])"
  let ?t1 = "demo_tools (exec_ok []) (Some ''  '')"
  let ?s = "demo_state [] [] []"
  have "\<not> truthy (editable_product_dependencies ?t0)"
    by (simp add: truthy_def demo_tools_def)
  with linker_with_empty_allow_list [of ?t0 "''py27''" False ?s]
  have 1: "install_editable_dependencies ?t0 ''py27'' False ?s = (Inr (), ?s)" by blast
  have h: "truthy (editable_product_dependencies ?t1) \<and> allow_list ?t1 = []"
    by (simp add: truthy_def allow_list_def demo_tools_def py_split_def is_space_def)
  have p: "tox_bindir ?t1 ''py27'' (Some ''python'') = ''/ws/mytool/.tox/py27/bin/python''"
    "product_name ?t1 = ''mytool''"
    by (simp_all add: demo_tools_def)
  obtain r s' where b: "install_editable_dependencies ?t1 ''py27'' False ?s = (r, s')"
    by (cases "install_editable_dependencies ?t1 ''py27'' False ?s")
  with linker_with_empty_allow_list [of ?t1 "''py27''" False ?s] h
  have "new_events ?s s'
          = [Run (Argv [tox_bindir ?t1 ''py27'' (Some ''python''), ''-c'',
                        introspection_script (product_name ?t1)]) None]" by blast
  with b have 2: "new_events ?s (snd (install_editable_dependencies ?t1 ''py27'' False ?s))
     = [Run (Argv [''/ws/mytool/.tox/py27/bin/python'', ''-c'', introspection_script ''mytool'']) None]"
    unfolding p by simp
  from 1 2 show ?thesis by simp
qed

section \<open>A failed build aborts the batch\<close>

text \<open>
  Claim C3. In a redevelop or recreate run, when tox exits with a code that is not zero, the
  call of \<^verbatim>\<open>test\<close> ends with the one error \<open>RunError\<close> for the tox command of the whole
  batch; the run of tox is the only event the call adds to the trace, so neither the
  normalizer nor the linker was called for any environment, and nothing reports an
  environment on its own.
\<close>

theorem failed_tox_aborts_batch:
  assumes "test_setup t a s = (Inr (envs, pytest_args), s1)"
    and "\<not> dependencies a" and "redevelop a \<or> recreate a"
    and "exec t (fs s1) (tox_cmd t envs (recreate a)) (Some (repo_path t)) = (code, out, w')"
    and "code \<noteq> 0"
  shows "test t a s =
           (Inl (RunError (tox_cmd t envs (recreate a)) code),
            s1\<lparr>fs := w',
                trace := trace s @ [Run (tox_cmd t envs (recreate a)) (Some (repo_path t))]\<rparr>)"
proof -
  have "trace s1 = trace s" using test_setup_trace [OF assms(1)] .
  moreover have "test t a s = synchronize t envs (recreate a) (debug a) s1"
    using test_synchronizes [OF assms(1-3)] .
  ultimately show ?thesis
    using run_failure [OF assms(4,5)] by (simp add: synchronize_def)
qed

theorem failed_tox_aborts_batch_witness:
  "test (demo_tools exec_fail (Some ''libA'')) redevelop_all (demo_state [] [] [])
     = (Inl (RunError (Argv [''tox'', ''-c'', ''/ws/mytool/tox.ini'', ''-e'', ''py26,py27'']) 1),
        \<lparr>fs = demo_world [] [] [],
         trace = [Run (Argv [''tox'', ''-c'', ''/ws/mytool/tox.ini'', ''-e'', ''py26,py27''])
                    (Some ''/ws/mytool'')]\<rparr>)"
proof -
  let ?t = "demo_tools exec_fail (Some ''libA'')"
  let ?s = "demo_state [] [] []"
  have 1: "test_setup ?t redevelop_all ?s = (Inr ([''py26'', ''py27''], []), ?s)"
    by (rule redevelop_all_setup)
  have 2: "\<not> dependencies redevelop_all" "redevelop redevelop_all \<or> recreate redevelop_all"
    by (simp_all add: redevelop_all_def)
  have 3: "exec ?t (fs ?s) (tox_cmd ?t [''py26'', ''py27''] (recreate redevelop_all))
             (Some (repo_path ?t)) = (1, [], demo_world [] [] [])"
    by (simp add: demo_defs)
  have 4: "tox_cmd ?t [''py26'', ''py27''] (recreate redevelop_all)
             = Argv [''tox'', ''-c'', ''/ws/mytool/tox.ini'', ''-e'', ''py26,py27'']"
    by (simp add: demo_defs tox_cmd_def)
  have 5: "repo_path ?t = ''/ws/mytool''"
    by (simp add: demo_tools_def)
  from failed_tox_aborts_batch [OF 1 2 3] show ?thesis
    unfolding 4 5 by (simp add: demo_state_def)
qed

section \<open>The post-steps of a synchronization\<close>




section \<open>One product that fails does not stop the linker\<close>

text \<open>
  Claim C9 as it is written fails for the uninstall: line 224 calls \<^verbatim>\<open>run\<close> with
  \<^verbatim>\<open>raises=False\<close>, so an uninstall that exits with a code that is not zero raises nothing,
  the guarded block has nothing to catch, and no record of the failure is logged. The loop
  goes on all the same.
\<close>

theorem failed_uninstall_is_not_logged:
  "install_editable_dependencies uninstall_fails_tools ''py27'' False (demo_state [] [] [])
   = (Inr (),
      \<lparr>fs = demo_world [] [] [],
       trace =
         [Run (Argv [''/ws/mytool/.tox/py27/bin/python'', ''-c'', introspection_script ''mytool'']) None,
          Log_info ''Installing libA in editable mode'',
          Run (Argv [''/ws/mytool/.tox/py27/bin/pip'', ''uninstall'', ''libA'', ''-y'']) None,
          Run (Argv [''/ws/mytool/.tox/py27/bin/pip'', ''install'', ''--editable'', ''/ws/libA'']) None,
          Log_info ''Installing libB in editable mode'',
          Run (Argv [''/ws/mytool/.tox/py27/bin/pip'', ''uninstall'', ''libB'', ''-y'']) None,
          Run (Argv [''/ws/mytool/.tox/py27/bin/pip'', ''install'', ''--editable'', ''/ws/libB'']) None]\<rparr>)
   \<and> fst (exec uninstall_fails_tools (demo_world [] [] [])
             (Argv [''/ws/mytool/.tox/py27/bin/pip'', ''uninstall'', ''libA'', ''-y'']) None) = 1"
  by (simp add: uninstall_fails_tools_def demo_defs eval_defs introspection_script_def sq_def)

text \<open>
  Claim C9, amended. Once the allow-list is configured and the introspection of the declared
  dependencies has succeeded, the linker returns normally whatever the exit codes of the pip
  commands are, and its events are those of \<open>linking\<close>: every selected product, in order,
  is announced, uninstalled and installed in editable mode; an install that fails is caught
  and logged, and the product after it is processed; an uninstall that fails is not raised
  and leaves no record.
\<close>

theorem linker_logs_failed_installs_and_goes_on:
  assumes "editable_product_dependencies t = Some configured" and "configured \<noteq> []"
    and "run t (Argv [tox_bindir t env (Some ''python''), ''-c'',
                       introspection_script (product_name t)]) None True s = (Inr out, s1)"
  shows "\<exists>s'. install_editable_dependencies t env dbg s = (Inr (), s')
           \<and> new_events s1 s' =
               fst (linking t (tox_bindir t env (Some ''pip''))
                      (select_libs (expand_product_groups t (py_split configured))
                         (map basename (product_repos t (fs s1))) (py_split out))
                      (fs s1))
           \<and> fs s' =
               snd (linking t (tox_bindir t env (Some ''pip''))
                      (select_libs (expand_product_groups t (py_split configured))
                         (map basename (product_repos t (fs s1))) (py_split out))
                      (fs s1))
           \<and> runs (new_events s1 s') =
               concat (map (pip_cmds t (tox_bindir t env (Some ''pip'')))
                 (select_libs (expand_product_groups t (py_split configured))
                    (map basename (product_repos t (fs s1))) (py_split out)))"
proof -
  let ?pip = "tox_bindir t env (Some ''pip'')"
  let ?libs = "select_libs (expand_product_groups t (py_split configured))
                 (map basename (product_repos t (fs s1))) (py_split out)"
  let ?s' = "link_loop t ?pip ?libs s1"
  have 1: "install_editable_dependencies t env dbg s = (Inr (), ?s')"
    using install_editable_dependencies_configured [OF assms] .
  have 2: "?s' = s1\<lparr>fs := snd (linking t ?pip ?libs (fs s1)),
                    trace := trace s1 @ fst (linking t ?pip ?libs (fs s1))\<rparr>"
    by (rule link_loop_linking)
  have 3: "new_events s1 ?s' = fst (linking t ?pip ?libs (fs s1))"
    by (subst 2) (simp add: new_events_def)
  have 4: "fs ?s' = snd (linking t ?pip ?libs (fs s1))"
    by (subst 2) simp
  from link_loop_trace [of t ?pip ?libs s1] obtain evs where
    "trace ?s' = trace s1 @ evs" "runs evs = concat (map (pip_cmds t ?pip) ?libs)" by blast
  then have 5: "runs (new_events s1 ?s') = concat (map (pip_cmds t ?pip) ?libs)"
    by simp
  from 1 3 4 5 show ?thesis by blast
qed

theorem linker_logs_failed_installs_and_goes_on_witness:
  "\<exists>s'. install_editable_dependencies two_libs_tools ''py27'' False (demo_state [] [] []) = (Inr (), s')
      \<and> new_events
           \<lparr>fs = demo_world [] [] [],
            trace = [Run (Argv [''/ws/mytool/.tox/py27/bin/python'', ''-c'',
                                introspection_script ''mytool'']) None]\<rparr> s'
          = [Log_info ''Installing libA in editable mode'',
             Run (Argv [''/ws/mytool/.tox/py27/bin/pip'', ''uninstall'', ''libA'', ''-y'']) None,
             Run (Argv [''/ws/mytool/.tox/py27/bin/pip'', ''install'', ''--editable'', ''/ws/libA'']) None,
             Log_exception ''An error occurred when installing libA in editable mode''
               (RunError (Argv [''/ws/mytool/.tox/py27/bin/pip'', ''install'', ''--editable'', ''/ws/libA'']) 1),
             Log_info ''Installing libB in editable mode'',
             Run (Argv [''/ws/mytool/.tox/py27/bin/pip'', ''uninstall'', ''libB'', ''-y'']) None,
             Run (Argv [''/ws/mytool/.tox/py27/bin/pip'', ''install'', ''--editable'', ''/ws/libB'']) None]"
proof -
  let ?t = two_libs_tools
  let ?s = "demo_state [] [] []"
  let ?s1 = "\<lparr>fs = demo_world [] [] [],
              trace = [Run (Argv [''/ws/mytool/.tox/py27/bin/python'', ''-c'',
                                  introspection_script ''mytool'']) None]\<rparr>"
  have 1: "editable_product_dependencies ?t = Some ''libA libB''" "''libA libB'' \<noteq> []"
    by (simp_all add: two_libs_tools_def demo_tools_def)
  have 2: "run ?t (Argv [tox_bindir ?t ''py27'' (Some ''python''), ''-c'',
                       introspection_script (product_name ?t)]) None True ?s = (Inr ''libA libB'', ?s1)"
    by (simp add: two_libs_tools_def demo_defs run_def)
  have 3: "fst (linking ?t (tox_bindir ?t ''py27'' (Some ''pip''))
                 (select_libs (expand_product_groups ?t (py_split ''libA libB''))
                    (map basename (product_repos ?t (fs ?s1))) (py_split ''libA libB''))
                 (fs ?s1))
          = [Log_info ''Installing libA in editable mode'',
             Run (Argv [''/ws/mytool/.tox/py27/bin/pip'', ''uninstall'', ''libA'', ''-y'']) None,
             Run (Argv [''/ws/mytool/.tox/py27/bin/pip'', ''install'', ''--editable'', ''/ws/libA'']) None,
             Log_exception ''An error occurred when installing libA in editable mode''
               (RunError (Argv [''/ws/mytool/.tox/py27/bin/pip'', ''install'', ''--editable'', ''/ws/libA'']) 1),
             Log_info ''Installing libB in editable mode'',
             Run (Argv [''/ws/mytool/.tox/py27/bin/pip'', ''uninstall'', ''libB'', ''-y'']) None,
             Run (Argv [''/ws/mytool/.tox/py27/bin/pip'', ''install'', ''--editable'', ''/ws/libB'']) None]"
    by (simp add: two_libs_tools_def demo_defs select_libs_def py_split_def is_space_def basename_def)
  from linker_logs_failed_installs_and_goes_on [OF 1 2, of False] show ?thesis
    unfolding 3 by blast
qed

text \<open>The same run, evaluated: the install of \<open>libA\<close> fails, \<open>libB\<close> is linked.\<close>

lemma failed_install_is_logged_and_next_product_linked:
  "install_editable_dependencies two_libs_tools ''py27'' False (demo_state [] [] [])
   = (Inr (),
      \<lparr>fs = demo_world [] [] [],
       trace =
         [Run (Argv [''/ws/mytool/.tox/py27/bin/python'', ''-c'', introspection_script ''mytool'']) None,
          Log_info ''Installing libA in editable mode'',
          Run (Argv [''/ws/mytool/.tox/py27/bin/pip'', ''uninstall'', ''libA'', ''-y'']) None,
          Run (Argv [''/ws/mytool/.tox/py27/bin/pip'', ''install'', ''--editable'', ''/ws/libA'']) None,
          Log_exception ''An error occurred when installing libA in editable mode''
            (RunError (Argv [''/ws/mytool/.tox/py27/bin/pip'', ''install'', ''--editable'', ''/ws/libA'']) 1),
          Log_info ''Installing libB in editable mode'',
          Run (Argv [''/ws/mytool/.tox/py27/bin/pip'', ''uninstall'', ''libB'', ''-y'']) None,
          Run (Argv [''/ws/mytool/.tox/py27/bin/pip'', ''install'', ''--editable'', ''/ws/libB'']) None]\<rparr>)"
  by (simp add: two_libs_tools_def demo_defs eval_defs introspection_script_def sq_def)

section \<open>The products the linker links\<close>

lemma set_select_libs:
  "set (select_libs allowed available declared) = set allowed \<inter> set available \<inter> set declared"
  by (auto simp: select_libs_def)

text \<open>
  Claim C7. The products the linker uninstalls and installs in editable mode are those of a
  list whose set is the intersection of the configured allow-list (after the expansion of
  groups), the available products of the workspace and the declared dependencies; the order
  and the repetitions of the three inputs do not change that set.
\<close>

theorem linked_products_are_intersection:
  assumes "editable_product_dependencies t = Some configured" and "configured \<noteq> []"
    and "run t (Argv [tox_bindir t env (Some ''python''), ''-c'',
                       introspection_script (product_name t)]) None True s = (Inr out, s1)"
  shows "\<exists>libs s'. install_editable_dependencies t env dbg s = (Inr (), s')
           \<and> runs (new_events s1 s') = concat (map (pip_cmds t (tox_bindir t env (Some ''pip''))) libs)
           \<and> set libs = set (expand_product_groups t (py_split configured))
                          \<inter> set (map basename (product_repos t (fs s1)))
                          \<inter> set (py_split out)
           \<and> (\<forall>allowed available declared.
                  set allowed = set (expand_product_groups t (py_split configured))
                  \<and> set available = set (map basename (product_repos t (fs s1)))
                  \<and> set declared = set (py_split out)
                  \<longrightarrow> set (select_libs allowed available declared) = set libs)"
proof -
  let ?libs = "select_libs (expand_product_groups t (py_split configured))
                 (map basename (product_repos t (fs s1))) (py_split out)"
  let ?s' = "link_loop t (tox_bindir t env (Some ''pip'')) ?libs s1"
  have "install_editable_dependencies t env dbg s = (Inr (), ?s')"
    using install_editable_dependencies_configured [OF assms] .
  moreover from link_loop_trace [of t "tox_bindir t env (Some ''pip'')" ?libs s1] obtain evs where
    "trace ?s' = trace s1 @ evs"
    "runs evs = concat (map (pip_cmds t (tox_bindir t env (Some ''pip''))) ?libs)" by blast
  then have "runs (new_events s1 ?s') = concat (map (pip_cmds t (tox_bindir t env (Some ''pip''))) ?libs)"
    by simp
  moreover have "set ?libs = set (expand_product_groups t (py_split configured))
                          \<inter> set (map basename (product_repos t (fs s1)))
                          \<inter> set (py_split out)"
    by (rule set_select_libs)
  moreover have "\<forall>allowed available declared.
                  set allowed = set (expand_product_groups t (py_split configured))
                  \<and> set available = set (map basename (product_repos t (fs s1)))
                  \<and> set declared = set (py_split out)
                  \<longrightarrow> set (select_libs allowed available declared) = set ?libs"
    by (simp add: set_select_libs)
  ultimately show ?thesis by blast
qed

lemma select_libs_scenario:
  "select_libs [''libA'', ''libB''] [''libA''] [''libA'', ''libC''] = [''libA'']"
  by (simp add: select_libs_def)

theorem linked_products_are_intersection_witness:
  "\<exists>libs s'. install_editable_dependencies scenario_tools ''py27'' False (demo_state [] [] [])
                = (Inr (), s')
      \<and> runs (new_events
                \<lparr>fs = demo_world [] [] [],
                 trace = [Run (Argv [''/ws/mytool/.tox/py27/bin/python'', ''-c'',
                                     introspection_script ''mytool'']) None]\<rparr> s')
          = concat (map (pip_cmds scenario_tools ''/ws/mytool/.tox/py27/bin/pip'') libs)
      \<and> set libs = {''libA''}
      \<and> set (select_libs [''libB'', ''libA''] [''libA''] [''libC'', ''libA'', ''libA'']) = set libs"
proof -
  let ?t = scenario_tools
  let ?s = "demo_state [] [] []"
  let ?s1 = "\<lparr>fs = demo_world [] [] [],
              trace = [Run (Argv [''/ws/mytool/.tox/py27/bin/python'', ''-c'',
                                  introspection_script ''mytool'']) None]\<rparr>"
  have 1: "editable_product_dependencies ?t = Some ''libA libB''" "''libA libB'' \<noteq> []"
    by (simp_all add: scenario_tools_def demo_tools_def)
  have 2: "run ?t (Argv [tox_bindir ?t ''py27'' (Some ''python''), ''-c'',
                       introspection_script (product_name ?t)]) None True ?s = (Inr ''libA libC'', ?s1)"
    by (simp add: scenario_tools_def demo_defs run_def)
  have 3: "tox_bindir ?t ''py27'' (Some ''pip'') = ''/ws/mytool/.tox/py27/bin/pip''"
    by (simp add: scenario_tools_def demo_tools_def)
  have 4: "set (expand_product_groups ?t (py_split ''libA libB''))
             \<inter> set (map basename (product_repos ?t (fs ?s1)))
             \<inter> set (py_split ''libA libC'') = {''libA''}"
    by (simp add: scenario_tools_def demo_tools_def py_split_def is_space_def basename_def)
  have 5: "set [''libB'', ''libA''] = set (expand_product_groups ?t (py_split ''libA libB''))
         \<and> set [''libA''] = set (map basename (product_repos ?t (fs ?s1)))
         \<and> set [''libC'', ''libA'', ''libA''] = set (py_split ''libA libC'')"
    by (auto simp add: scenario_tools_def demo_tools_def py_split_def is_space_def basename_def)
  from linked_products_are_intersection [OF 1 2, of False] obtain libs s' where
    r: "install_editable_dependencies ?t ''py27'' False ?s = (Inr (), s')"
       "runs (new_events ?s1 s') = concat (map (pip_cmds ?t (tox_bindir ?t ''py27'' (Some ''pip''))) libs)"
       "set libs = set (expand_product_groups ?t (py_split ''libA libB''))
             \<inter> set (map basename (product_repos ?t (fs ?s1)))
             \<inter> set (py_split ''libA libC'')"
       "\<forall>allowed available declared.
                  set allowed = set (expand_product_groups ?t (py_split ''libA libB''))
                  \<and> set available = set (map basename (product_repos ?t (fs ?s1)))
                  \<and> set declared = set (py_split ''libA libC'')
                  \<longrightarrow> set (select_libs allowed available declared) = set libs"
    by blast
  from r(4) 5 have "set (select_libs [''libB'', ''libA''] [''libA''] [''libC'', ''libA'', ''libA'']) = set libs"
    by blast
  with r(1,2,3) show ?thesis unfolding 3 4 by blast
qed

section \<open>A plain run and the stale environments\<close>











section \<open>What the normalizer returns\<close>

text \<open>
  Claim C6 as it is written fails: \<^verbatim>\<open>strip_version_from_entry_scripts\<close> has no \<^verbatim>\<open>return\<close>
  statement. With one script rewritten its value is \<^verbatim>\<open>None\<close>, not the list of the one
  name, which only the debug log receives; without the script directory its value is
  \<^verbatim>\<open>None\<close> too, not an empty list.
\<close>

theorem normalizer_returns_none:
  "strip_version_from_entry_scripts (demo_tools exec_fail None) ''py27''
     (scripts_state [(''mytool'', ''mytool==1.4.2 --flag'')])
   = (Inr None,
      \<lparr>fs = \<lparr>stat_mtime = [bin27 \<mapsto> 1, bin27 @ ''/mytool'' \<mapsto> 0],
              listdir = [bin27 \<mapsto> [''mytool'']],
              file_content = [bin27 @ ''/mytool'' \<mapsto> ''mytool --flag''],
              environ = (\<lambda>v. None), clock = 0\<rparr>,
       trace = [Write (bin27 @ ''/mytool'') ''mytool --flag'',
                Log_debug ''Removed version spec from entry script(s): mytool'']\<rparr>)
   \<and> strip_version_from_entry_scripts (demo_tools exec_fail None) ''py27'' (demo_state [] [] [])
       = (Inr None, demo_state [] [] [])"
  by (simp add: scenario_defs demo_defs eval_defs)

text \<open>
  Claim C6, amended. The normalizer returns nothing (\<^verbatim>\<open>None\<close>) whenever it returns. The names
  of the scripts it modified (the base names of the files it wrote, in order) go to the log:
  one debug message that lists them when there is at least one, no message otherwise. When
  the script directory does not exist it does nothing and does not fail: the state is
  unchanged.
\<close>

theorem normalizer_logs_modified_names:
  "(\<not> path_exists (fs s) (tox_bindir t env None) \<longrightarrow>
      strip_version_from_entry_scripts t env s = (Inr None, s))
   \<and> (\<forall>v s'. strip_version_from_entry_scripts t env s = (Inr v, s') \<longrightarrow>
        v = None
        \<and> debug_messages (new_events s s') =
            (if written (new_events s s') = [] then []
             else [''Removed version spec from entry script(s): ''
                   @ py_join '', '' (map basename (written (new_events s s')))]))"
proof (intro conjI impI allI)
  assume "\<not> path_exists (fs s) (tox_bindir t env None)"
  then show "strip_version_from_entry_scripts t env s = (Inr None, s)"
    by (simp add: strip_version_from_entry_scripts_def)
next
  fix v s'
  assume a: "strip_version_from_entry_scripts t env s = (Inr v, s')"
  from strip_returns [OF a] show "v = None" by simp
next
  fix v s'
  assume a: "strip_version_from_entry_scripts t env s = (Inr v, s')"
  show "debug_messages (new_events s s') =
            (if written (new_events s s') = [] then []
             else [''Removed version spec from entry script(s): ''
                   @ py_join '', '' (map basename (written (new_events s s')))])"
  proof (cases "path_exists (fs s) (tox_bindir t env None)")
    case False
    with strip_returns [OF a] have "s' = s" by simp
    then show ?thesis by (simp add: new_events_def debug_messages_def written_def)
  next
    case True
    with strip_returns [OF a] obtain re scripts removed s1 where
      l: "strip_loop re (product_name t) (tox_bindir t env None) scripts [] s = (Inr removed, s1)"
      and s': "s' = (if removed \<noteq> []
                    then emit (Log_debug (''Removed version spec from entry script(s): ''
                                 @ py_join '', '' removed)) s1
                    else s1)"
      by auto
    note n = strip_new_events [OF l s']
    from n(1,2) have r: "removed = map basename (written (new_events s s'))" by simp
    from n(3) show ?thesis unfolding r [symmetric] using r by auto
  qed
qed

theorem normalizer_logs_modified_names_witness:
  "strip_version_from_entry_scripts (demo_tools exec_fail None) ''py27'' (demo_state [] [] [])
     = (Inr None, demo_state [] [] [])
   \<and> debug_messages
        (new_events (scripts_state [(''mytool'', ''mytool==1.4.2 --flag'')])
           (snd (strip_version_from_entry_scripts (demo_tools exec_fail None) ''py27''
                   (scripts_state [(''mytool'', ''mytool==1.4.2 --flag'')]))))
      = [''Removed version spec from entry script(s): mytool'']"
proof -
  let ?t = "demo_tools exec_fail None"
  let ?s = "scripts_state [(''mytool'', ''mytool==1.4.2 --flag'')]"
  note thm0 = normalizer_logs_modified_names [of "demo_state [] [] []" ?t "''py27''"]
  note thm1 = normalizer_logs_modified_names [of ?s ?t "''py27''"]
  have "\<not> path_exists (fs (demo_state [] [] [])) (tox_bindir ?t ''py27'' None)"
    by (simp add: demo_defs path_exists_def)
  with thm0 have 1: "strip_version_from_entry_scripts ?t ''py27'' (demo_state [] [] [])
     = (Inr None, demo_state [] [] [])" by blast
  obtain v s' where r: "strip_version_from_entry_scripts ?t ''py27'' ?s = (v, s')"
    by (cases "strip_version_from_entry_scripts ?t ''py27'' ?s")
  have "fst (strip_version_from_entry_scripts ?t ''py27'' ?s) = Inr None"
    by (simp add: scenario_defs demo_defs eval_defs)
  with r have v: "v = Inr None" by simp
  have w: "written (new_events ?s (snd (strip_version_from_entry_scripts ?t ''py27'' ?s)))
             = [''/ws/mytool/.tox/py27/bin/mytool'']"
    by (simp add: scenario_defs demo_defs eval_defs new_events_def written_def)
  from thm1 r v have "debug_messages (new_events ?s s') =
            (if written (new_events ?s s') = [] then []
             else [''Removed version spec from entry script(s): ''
                   @ py_join '', '' (map basename (written (new_events ?s s')))])" by blast
  with w r have 2: "debug_messages (new_events ?s (snd (strip_version_from_entry_scripts ?t ''py27'' ?s)))
      = [''Removed version spec from entry script(s): mytool'']"
    by (simp add: basename_def)
  from 1 2 show ?thesis by simp
qed


section \<open>What the normalizer rewrites\<close>

text \<open>
  Claim C4 as it is written fails: the pattern ends in \<^verbatim>\<open>[0-9\.]+\<close>, any run of digits and
  dots, so what is replaced after \<^verbatim>\<open>==\<close> need not be a dotted numeric version. The period
  that ends a sentence after \<^verbatim>\<open>mytool==1.4.2\<close> goes with the version, and \<^verbatim>\<open>mytool==..\<close>, which
  holds no version at all, is rewritten.
\<close>

theorem normalizer_strips_more_than_a_version:
  "dotted_numeric ''1.4.2'' \<and> \<not> dotted_numeric ''1.4.2.'' \<and> \<not> dotted_numeric ''..''
   \<and> file_content
        (fs (snd (strip_version_from_entry_scripts (demo_tools exec_fail None) ''py27''
                    (scripts_state [(''a'', ''mytool==1.4.2. ok''), (''b'', ''mytool==..'')]))))
        (bin27 @ ''/a'') = Some ''mytool ok''
   \<and> file_content
        (fs (snd (strip_version_from_entry_scripts (demo_tools exec_fail None) ''py27''
                    (scripts_state [(''a'', ''mytool==1.4.2. ok''), (''b'', ''mytool==..'')]))))
        (bin27 @ ''/b'') = Some ''mytool''"
  by (simp add: scenario_defs demo_defs eval_defs dotted_numeric_def is_digit_def)

text \<open>
  The product name enters the pattern without escaping, so a dot of the name matches any
  character: for the product \<open>my.tool\<close> a script that names \<open>my-tool\<close> is rewritten.
\<close>

lemma dot_in_name_matches_any_character:
  "file_content
     (fs (snd (strip_version_from_entry_scripts
                 ((demo_tools exec_fail None)\<lparr>product_name := ''my.tool''\<rparr>) ''py27''
                 (scripts_state [(''a'', ''my-tool==2.0 x'')]))))
     (bin27 @ ''/a'') = Some ''my.tool x''"
  by (simp add: scenario_defs demo_defs eval_defs)

text \<open>
  Claim C4, amended. For a product name without a character that is special in a regular
  expression, and a script directory listed without repetitions, a call of the normalizer
  that returns has read every listed file and left in it \<open>replace_pinned\<close> of its content:
  every occurrence, from left to right, of the product's own name immediately followed by
  \<^verbatim>\<open>==\<close> and the longest run of digits and dots is replaced with the bare name. A file is
  written exactly when its content had such an occurrence; a file without one keeps its
  content, and no file outside the listing is written or changed.
\<close>

theorem normalizer_rewrites_pinned_names:
  assumes "plain_name (product_name t)"
    and "path_exists (fs s) (tox_bindir t env None)"
    and "listdir (fs s) (tox_bindir t env None) = Some scripts"
    and "distinct (map (path_join (tox_bindir t env None)) scripts)"
    and "strip_version_from_entry_scripts t env s = (Inr v, s')"
  shows "(\<forall>script \<in> set scripts. \<exists>content.
            file_content (fs s) (path_join (tox_bindir t env None) script) = Some content
            \<and> file_content (fs s') (path_join (tox_bindir t env None) script)
                = Some (replace_pinned (product_name t) content)
            \<and> (path_join (tox_bindir t env None) script \<in> set (written (new_events s s'))
                 \<longleftrightarrow> has_pinned (product_name t) content)
            \<and> (\<not> has_pinned (product_name t) content
                 \<longrightarrow> replace_pinned (product_name t) content = content))
       \<and> (\<forall>p. p \<notin> path_join (tox_bindir t env None) ` set scripts \<longrightarrow>
              file_content (fs s') p = file_content (fs s) p
              \<and> p \<notin> set (written (new_events s s')))"
proof -
  let ?re = "\<lparr>pattern_search = re_search (map Lit (product_name t)),
              pattern_sub = re_sub (map Lit (product_name t))\<rparr>"
  from strip_returns [OF assms(5)] assms(2,3) re_compile_plain_name [OF assms(1), of t]
  obtain removed s1 where
    l: "strip_loop ?re (product_name t) (tox_bindir t env None) scripts [] s = (Inr removed, s1)"
    and s': "s' = (if removed \<noteq> []
                  then emit (Log_debug (''Removed version spec from entry script(s): ''
                               @ py_join '', '' removed)) s1
                  else s1)"
    by auto
  note n = strip_new_events [OF l s']
  have norm: "normalized ?re (product_name t) c = replace_pinned (product_name t) c" for c
    by (simp add: normalized_def re_search_literal re_sub_literal replace_pinned_no_match)
  from strip_loop_effect [OF l assms(4)] show ?thesis
    unfolding n(1) n(4) norm
    by (auto simp: re_search_literal replace_pinned_no_match)
qed

theorem normalizer_rewrites_pinned_names_witness:
  "file_content
     (fs (snd (strip_version_from_entry_scripts (demo_tools exec_fail None) ''py27''
                 (scripts_state [(''mytool'', ''mytool==1.4.2 --flag''),
                                 (''other'', ''othertool --flag'')]))))
     ''/ws/mytool/.tox/py27/bin/mytool'' = Some ''mytool --flag''
   \<and> file_content
     (fs (snd (strip_version_from_entry_scripts (demo_tools exec_fail None) ''py27''
                 (scripts_state [(''mytool'', ''mytool==1.4.2 --flag''),
                                 (''other'', ''othertool --flag'')]))))
     ''/ws/mytool/.tox/py27/bin/other'' = Some ''othertool --flag''
   \<and> ''/ws/mytool/.tox/py27/bin/other''
       \<notin> set (written (new_events
                 (scripts_state [(''mytool'', ''mytool==1.4.2 --flag''),
                                 (''other'', ''othertool --flag'')])
                 (snd (strip_version_from_entry_scripts (demo_tools exec_fail None) ''py27''
                         (scripts_state [(''mytool'', ''mytool==1.4.2 --flag''),
                                         (''other'', ''othertool --flag'')])))))"
proof -
  let ?t = "demo_tools exec_fail None"
  let ?s = "scripts_state [(''mytool'', ''mytool==1.4.2 --flag''), (''other'', ''othertool --flag'')]"
  let ?bin = "tox_bindir ?t ''py27'' None"
  have bin: "?bin = ''/ws/mytool/.tox/py27/bin''" by (simp add: demo_tools_def)
  have name: "product_name ?t = ''mytool''" by (simp add: demo_tools_def)
  have 1: "plain_name (product_name ?t)"
    by (simp add: demo_tools_def plain_name_def regex_special_def)
  have 2: "path_exists (fs ?s) ?bin"
    by (simp add: scenario_defs demo_defs path_exists_def)
  have 3: "listdir (fs ?s) ?bin = Some [''mytool'', ''other'']"
    by (simp add: scenario_defs demo_defs)
  have 4: "distinct (map (path_join ?bin) [''mytool'', ''other''])"
    by (simp add: demo_tools_def path_join_def)
  have "fst (strip_version_from_entry_scripts ?t ''py27'' ?s) = Inr None"
    by (simp add: scenario_defs demo_defs eval_defs)
  then obtain s' where 5: "strip_version_from_entry_scripts ?t ''py27'' ?s = (Inr None, s')"
    by (cases "strip_version_from_entry_scripts ?t ''py27'' ?s") auto
  have c1: "file_content (fs ?s) (path_join ?bin ''mytool'') = Some ''mytool==1.4.2 --flag''"
    and c2: "file_content (fs ?s) (path_join ?bin ''other'') = Some ''othertool --flag''"
    by (simp_all add: scenario_defs demo_defs path_join_def)
  have p1: "path_join ?bin ''mytool'' = ''/ws/mytool/.tox/py27/bin/mytool''"
    and p2: "path_join ?bin ''other'' = ''/ws/mytool/.tox/py27/bin/other''"
    by (simp_all add: demo_tools_def path_join_def)
  have r1: "replace_pinned ''mytool'' ''mytool==1.4.2 --flag'' = ''mytool --flag''"
    by (simp add: pinned_rest_def version_char_def)
  have r2: "replace_pinned ''mytool'' ''othertool --flag'' = ''othertool --flag''"
    and h2: "\<not> has_pinned ''mytool'' ''othertool --flag''"
    by (simp_all add: pinned_rest_def version_char_def)
  note inst = normalizer_rewrites_pinned_names [OF 1 2 3 4 5]
  from inst c1 have "file_content (fs s') (path_join ?bin ''mytool'')
                      = Some (replace_pinned (product_name ?t) ''mytool==1.4.2 --flag'')"
    by fastforce
  then have a: "file_content (fs s') ''/ws/mytool/.tox/py27/bin/mytool'' = Some ''mytool --flag''"
    unfolding p1 name r1 .
  from inst c2 have "file_content (fs s') (path_join ?bin ''other'')
                      = Some (replace_pinned (product_name ?t) ''othertool --flag'')
                  \<and> (path_join ?bin ''other'' \<in> set (written (new_events ?s s'))
                        \<longleftrightarrow> has_pinned (product_name ?t) ''othertool --flag'')"
    by fastforce
  then have b: "file_content (fs s') ''/ws/mytool/.tox/py27/bin/other'' = Some ''othertool --flag''"
    and c: "''/ws/mytool/.tox/py27/bin/other'' \<notin> set (written (new_events ?s s'))"
    unfolding p2 name r2 using h2 by simp_all
  from a b c 5 show ?thesis by simp
qed

section \<open>Normalizing twice\<close>




end
